theory Spec2Isabelle
  imports Main "HOL-Library.Word"
begin

unbundle bit_operations_syntax

section \<open>update-passwd: data model\<close>

text \<open>
  The program keeps five singly linked lists of \<^verbatim>\<open>struct _node\<close>. A list is modelled
  as a HOL list of nodes in link order; \<^verbatim>\<open>next\<close> is the tail. The union \<^verbatim>\<open>d\<close> together
  with its tag \<^verbatim>\<open>t\<close> is the datatype \<open>entry\<close>. \<^verbatim>\<open>unsigned int\<close>, \<^verbatim>\<open>uid_t\<close> and \<^verbatim>\<open>gid_t\<close>
  are 32-bit words, compared unsigned. A \<^verbatim>\<open>char*\<close> that the C library may leave \<^verbatim>\<open>NULL\<close>
  is a \<open>string option\<close>; the entry name is never \<^verbatim>\<open>NULL\<close> in a list, because the
  readers stop at a \<^verbatim>\<open>NULL\<close> name.
\<close>

type_synonym u32 = "32 word"

record passwd =
  pw_name :: string
  pw_passwd :: "string option"
  pw_uid :: u32
  pw_gid :: u32
  pw_gecos :: "string option"
  pw_dir :: "string option"
  pw_shell :: "string option"

text \<open>\<open>sp_flag\<close> is \<open>None\<close> where the program leaves the member as allocated.\<close>

record spwd =
  sp_namp :: string
  sp_pwdp :: "string option"
  sp_lstchg :: int
  sp_min :: int
  sp_max :: int
  sp_warn :: int
  sp_inact :: int
  sp_expire :: int
  sp_flag :: "int option"

record group =
  gr_name :: string
  gr_passwd :: "string option"
  gr_gid :: u32
  gr_mem :: "string list"

text \<open>\<open>T_error\<close> is the tag \<^verbatim>\<open>t_error\<close> of a node fresh from \<^verbatim>\<open>create_node\<close>.\<close>

datatype entry = PW passwd | SP spwd | GR group | T_error

record node =
  node_d :: entry
  node_name :: string
  node_id :: u32

text \<open>
  What ends the process or is undefined in C is a value: \<^verbatim>\<open>exit(n)\<close>, a failed
  \<^verbatim>\<open>assert\<close>, a dereferenced null pointer, a conversion specification without an
  argument in a format string, and a read of the union member that is not the active one.
\<close>

datatype fault = ExitCode nat | AssertionFailed | NullPointer | FormatString | InactiveMember

definition then_res :: "fault + 'a \<Rightarrow> ('a \<Rightarrow> fault + 'b) \<Rightarrow> fault + 'b" where
  "then_res r f = (case r of Inl e \<Rightarrow> Inl e | Inr x \<Rightarrow> f x)"

definition FL_KEEPHOME :: u32 where "FL_KEEPHOME = 0x0001"
definition FL_KEEPSHELL :: u32 where "FL_KEEPSHELL = 0x0002"
definition FL_KEEPGECOS :: u32 where "FL_KEEPGECOS = 0x0004"
definition FL_KEEPALL :: u32 where "FL_KEEPALL = 0x000f"
definition FL_NOAUTOREMOVE :: u32 where "FL_NOAUTOREMOVE = 0x0010"
definition FL_NOAUTOADD :: u32 where "FL_NOAUTOADD = 0x0020"

text \<open>\<^verbatim>\<open>INT_MAX\<close> of a 32-bit \<^verbatim>\<open>int\<close>, stored in the unsigned \<^verbatim>\<open>id\<close>.\<close>

definition INT_MAX :: u32 where "INT_MAX = 0x7fffffff"

text \<open>Size of \<^verbatim>\<open>buf\<close> in a node: the value glibc's \<^verbatim>\<open>pwd.h\<close> gives \<^verbatim>\<open>NSS_BUFLEN_PASSWD\<close>.\<close>

definition NSS_BUFLEN_PASSWD :: nat where "NSS_BUFLEN_PASSWD = 1024"

record userinfo =
  ui_id :: u32
  ui_flags :: u32

text \<open>The table \<^verbatim>\<open>specialusers\<close>, with its terminating entry.\<close>

definition specialusers :: "userinfo list" where
  "specialusers =
    [\<lparr>ui_id = 0, ui_flags = FL_KEEPALL OR FL_NOAUTOREMOVE\<rparr>,
     \<lparr>ui_id = 11, ui_flags = FL_KEEPHOME OR FL_NOAUTOADD OR FL_NOAUTOREMOVE\<rparr>,
     \<lparr>ui_id = 33, ui_flags = FL_KEEPHOME\<rparr>,
     \<lparr>ui_id = 70, ui_flags = FL_NOAUTOREMOVE\<rparr>,
     \<lparr>ui_id = 71, ui_flags = FL_KEEPALL OR FL_KEEPHOME OR FL_NOAUTOADD OR FL_NOAUTOREMOVE\<rparr>,
     \<lparr>ui_id = 72, ui_flags = FL_KEEPALL OR FL_KEEPHOME OR FL_NOAUTOADD OR FL_NOAUTOREMOVE\<rparr>,
     \<lparr>ui_id = 73, ui_flags = FL_KEEPALL OR FL_KEEPHOME OR FL_NOAUTOADD OR FL_NOAUTOREMOVE\<rparr>,
     \<lparr>ui_id = 74, ui_flags = FL_KEEPALL OR FL_KEEPHOME OR FL_NOAUTOADD OR FL_NOAUTOREMOVE\<rparr>,
     \<lparr>ui_id = 75, ui_flags = FL_KEEPALL OR FL_KEEPHOME OR FL_NOAUTOADD OR FL_NOAUTOREMOVE\<rparr>,
     \<lparr>ui_id = 76, ui_flags = FL_KEEPALL OR FL_KEEPHOME OR FL_NOAUTOADD OR FL_NOAUTOREMOVE\<rparr>,
     \<lparr>ui_id = 0, ui_flags = 0\<rparr>]"

section \<open>Record store\<close>

subsection \<open>Copying an entry\<close>

text \<open>
  \<^verbatim>\<open>sprintf(dst, s)\<close> with the copied string as the format and no argument: \<^verbatim>\<open>%%\<close>
  writes one \<^verbatim>\<open>%\<close>, any other conversion specification is undefined, and so is a
  \<^verbatim>\<open>NULL\<close> format. The result is the string written; \<^verbatim>\<open>sprintf\<close> returns its length.
\<close>

fun format_noargs :: "string \<Rightarrow> fault + string" where
  "format_noargs [] = Inr []"
| "format_noargs [c] = (if c = CHR ''%'' then Inl FormatString else Inr [c])"
| "format_noargs (c # c' # cs) =
     (if c = CHR ''%''
      then (if c' = CHR ''%''
            then then_res (format_noargs cs) (\<lambda>r. Inr (c' # r))
            else Inl FormatString)
      else then_res (format_noargs (c' # cs)) (\<lambda>r. Inr (c # r)))"

definition sprintf :: "string option \<Rightarrow> fault + string" where
  "sprintf fmt = (case fmt of None \<Rightarrow> Inl NullPointer | Some s \<Rightarrow> format_noargs s)"

text \<open>
  The copy functions fill \<open>newnode\<close> from \<open>node\<close>. \<open>idx\<close> is the number of bytes of
  \<^verbatim>\<open>buf\<close> used, each string with its terminator; more than \<open>NSS_BUFLEN_PASSWD\<close> is
  \<^verbatim>\<open>exit(100)\<close>.
\<close>

definition copy_passwd :: "node \<Rightarrow> node \<Rightarrow> fault + node" where
  "copy_passwd newnode node =
     (case node_d node of
        PW pw \<Rightarrow>
          then_res (sprintf (Some (pw_name pw))) (\<lambda>nm.
          then_res (sprintf (pw_passwd pw)) (\<lambda>pwd.
          then_res (sprintf (pw_gecos pw)) (\<lambda>gecos.
          then_res (sprintf (pw_dir pw)) (\<lambda>dir.
          then_res (sprintf (pw_shell pw)) (\<lambda>shell.
            let idx = (length nm + 1) + (length pwd + 1) + (length gecos + 1)
                      + (length dir + 1) + (length shell + 1)
            in if idx > NSS_BUFLEN_PASSWD then Inl (ExitCode 100)
               else Inr (newnode\<lparr>node_d := PW \<lparr>pw_name = nm, pw_passwd = Some pwd,
                           pw_uid = pw_uid pw, pw_gid = pw_gid pw, pw_gecos = Some gecos,
                           pw_dir = Some dir, pw_shell = Some shell\<rparr>\<rparr>))))))
      | _ \<Rightarrow> Inl AssertionFailed)"

definition copy_shadow :: "node \<Rightarrow> node \<Rightarrow> fault + node" where
  "copy_shadow newnode node =
     (case node_d node of
        SP sp \<Rightarrow>
          then_res (sprintf (Some (sp_namp sp))) (\<lambda>nm.
          then_res (sprintf (sp_pwdp sp)) (\<lambda>pwd.
            let idx = (length nm + 1) + (length pwd + 1)
            in if idx > NSS_BUFLEN_PASSWD then Inl (ExitCode 100)
               else Inr (newnode\<lparr>node_d := SP \<lparr>sp_namp = nm, sp_pwdp = Some pwd,
                           sp_lstchg = sp_lstchg sp, sp_min = sp_min sp, sp_max = sp_max sp,
                           sp_warn = sp_warn sp, sp_inact = sp_inact sp,
                           sp_expire = sp_expire sp, sp_flag = None\<rparr>\<rparr>)))
      | _ \<Rightarrow> Inl AssertionFailed)"

text \<open>
  \<^verbatim>\<open>copy_group\<close> writes the name, the password and the name once more; \<^verbatim>\<open>gr_name\<close>
  ends at the second copy of the name. The member list is shared with \<open>node\<close>.
\<close>

definition copy_group :: "node \<Rightarrow> node \<Rightarrow> fault + node" where
  "copy_group newnode node =
     (case node_d node of
        GR gr \<Rightarrow>
          then_res (sprintf (Some (gr_name gr))) (\<lambda>nm.
          then_res (sprintf (gr_passwd gr)) (\<lambda>pwd.
          then_res (sprintf (Some (gr_name gr))) (\<lambda>nm2.
            let idx = (length nm + 1) + (length pwd + 1) + (length nm2 + 1)
            in if idx > NSS_BUFLEN_PASSWD then Inl (ExitCode 100)
               else Inr (newnode\<lparr>node_d := GR \<lparr>gr_name = nm2, gr_passwd = Some pwd,
                           gr_gid = gr_gid gr, gr_mem = gr_mem gr\<rparr>\<rparr>))))
      | _ \<Rightarrow> Inl AssertionFailed)"

text \<open>
  \<^verbatim>\<open>copy_node\<close>: the new node takes \<open>id\<close>, \<open>name\<close> and tag of \<open>node\<close>, then the
  copy function of its tag fills the entry. Any other tag is \<^verbatim>\<open>exit(1)\<close>.
\<close>

definition copy_node :: "node \<Rightarrow> fault + node" where
  "copy_node node =
     (let newnode = \<lparr>node_d = T_error, node_name = node_name node, node_id = node_id node\<rparr>
      in case node_d node of
           PW _ \<Rightarrow> copy_passwd newnode node
         | SP _ \<Rightarrow> copy_shadow newnode node
         | GR _ \<Rightarrow> copy_group newnode node
         | T_error \<Rightarrow> Inl (ExitCode 1))"

subsection \<open>Insertion and lookup\<close>

text \<open>
  \<^verbatim>\<open>add_node\<close>. \<open>add_node_walk node rest\<close> is the \<^verbatim>\<open>for\<close> loop with \<open>rest\<close> the list
  behind \<^verbatim>\<open>walk\<close>: it stops before the first node with a greater \<open>id\<close> and links
  \<open>node\<close> there. On an empty list, and on a list whose head has a greater \<open>id\<close>, the
  head becomes \<open>node\<close>, whose \<^verbatim>\<open>next\<close> is \<^verbatim>\<open>NULL\<close>.
\<close>

fun add_node_walk :: "node \<Rightarrow> node list \<Rightarrow> node list" where
  "add_node_walk node [] = [node]"
| "add_node_walk node (x # xs) =
     (if node_id x \<le> node_id node then x # add_node_walk node xs else node # x # xs)"

fun add_node :: "node list \<Rightarrow> node \<Rightarrow> node list" where
  "add_node [] node = [node]"
| "add_node (h # rest) node =
     (if node_id h > node_id node then [node] else h # add_node_walk node rest)"

fun find_by_name :: "node list \<Rightarrow> string \<Rightarrow> node option" where
  "find_by_name [] nm = None"
| "find_by_name (h # rest) nm = (if nm = node_name h then Some h else find_by_name rest nm)"

fun find_by_named_entry :: "node list \<Rightarrow> node \<Rightarrow> node option" where
  "find_by_named_entry [] entry = None"
| "find_by_named_entry (h # rest) entry =
     (if node_name entry = node_name h then Some h else find_by_named_entry rest entry)"

fun find_by_id :: "node list \<Rightarrow> u32 \<Rightarrow> node option" where
  "find_by_id [] i = None"
| "find_by_id (h # rest) i = (if i = node_id h then Some h else find_by_id rest i)"

section \<open>Reserved-identity policy\<close>

text \<open>
  \<^verbatim>\<open>scan_users\<close> walks the table up to the entry with \<open>id\<close> 0 and no flag. The
  table of the program ends with that entry, so the walk never leaves it.
\<close>

fun scan_table :: "userinfo list \<Rightarrow> u32 \<Rightarrow> u32 \<Rightarrow> bool" where
  "scan_table [] i flag = False"
| "scan_table (w # ws) i flag =
     (if ui_id w = 0 \<and> ui_flags w = 0 then False
      else if ui_id w = i then (ui_flags w AND flag) \<noteq> 0
      else scan_table ws i flag)"

definition scan_users :: "u32 \<Rightarrow> u32 \<Rightarrow> bool" where
  "scan_users i flag = scan_table specialusers i flag"

definition keephome :: "u32 \<Rightarrow> bool" where "keephome i = scan_users i FL_KEEPHOME"
definition keepshell :: "u32 \<Rightarrow> bool" where "keepshell i = scan_users i FL_KEEPSHELL"
definition keepgecos :: "u32 \<Rightarrow> bool" where "keepgecos i = scan_users i FL_KEEPGECOS"
definition noautoremove :: "u32 \<Rightarrow> bool" where "noautoremove i = scan_users i FL_NOAUTOREMOVE"

section \<open>Reconciler\<close>

text \<open>
  The reconciler functions take the list and the dirty counter \<^verbatim>\<open>flag_dirty\<close> and
  return both. The messages printed under \<^verbatim>\<open>opt_verbose\<close> and \<^verbatim>\<open>opt_dryrun\<close> are
  left out, and with them the label \<^verbatim>\<open>descr\<close>.
\<close>

fun process_new_entries :: "node list \<Rightarrow> node list \<Rightarrow> nat \<Rightarrow> fault + (node list \<times> nat)" where
  "process_new_entries passwd [] dirty = Inr (passwd, dirty)"
| "process_new_entries passwd (m # master) dirty =
     (case find_by_named_entry passwd m of
        None \<Rightarrow>
          then_res (copy_node m) (\<lambda>newnode.
            process_new_entries (add_node passwd newnode) master (dirty + 1))
      | Some _ \<Rightarrow> process_new_entries passwd master dirty)"

text \<open>
  \<^verbatim>\<open>process_old_entries\<close> walks with a pointer to the link that holds the current
  node. The list argument is what that link holds. A \<^verbatim>\<open>continue\<close> and the end of the
  body both run the step \<^verbatim>\<open>passwd=&((*passwd)->next)\<close>. After a removal the link
  holds the successor \<open>r\<close> of the removed node, so the step moves on to the link behind
  \<open>r\<close>; when there is no successor the step dereferences a null pointer.
\<close>

fun process_old_entries :: "node list \<Rightarrow> node list \<Rightarrow> nat \<Rightarrow> fault + (node list \<times> nat)" where
  "process_old_entries [] master dirty = Inr ([], dirty)"
| "process_old_entries (n # rest) master dirty =
     (if node_id n > 99 then
        then_res (process_old_entries rest master dirty) (\<lambda>(l, c). Inr (n # l, c))
      else if noautoremove (node_id n) then
        then_res (process_old_entries rest master dirty) (\<lambda>(l, c). Inr (n # l, c))
      else if find_by_named_entry master n = None then
        (case rest of
           [] \<Rightarrow> Inl NullPointer
         | r # rest' \<Rightarrow>
             then_res (process_old_entries rest' master (dirty + 1)) (\<lambda>(l, c). Inr (r # l, c)))
      else
        then_res (process_old_entries rest master dirty) (\<lambda>(l, c). Inr (n # l, c)))"

text \<open>
  \<^verbatim>\<open>(p==NULL) || (strcmp(p, q)!=0)\<close>, as the three string fields are tested:
  \<^verbatim>\<open>strcmp\<close> runs only on a non-null \<open>p\<close>, and a null \<open>q\<close> is dereferenced there.
\<close>

definition null_or_differs :: "string option \<Rightarrow> string option \<Rightarrow> fault + bool" where
  "null_or_differs p q =
     (case p of
        None \<Rightarrow> Inr True
      | Some s \<Rightarrow> (case q of None \<Rightarrow> Inl NullPointer | Some s' \<Rightarrow> Inr (s \<noteq> s')))"

text \<open>
  The body of the loop of \<^verbatim>\<open>process_changed_accounts\<close> for one node of the list, in
  the order of the source: \<open>id\<close> with \<open>pw_uid\<close>, \<open>pw_gid\<close>, then the three string
  fields, each behind its flag, which is looked up under the \<open>id\<close> the node has by
  then. The fields are read through the union member \<open>pw\<close>.
\<close>

definition changed_account :: "node list \<Rightarrow> node \<Rightarrow> nat \<Rightarrow> fault + (node \<times> nat)" where
  "changed_account master passwd dirty =
     (if node_id passwd > 99 then Inr (passwd, dirty)
      else case find_by_named_entry master passwd of
        None \<Rightarrow> Inr (passwd, dirty)
      | Some mc \<Rightarrow>
         (case (node_d passwd, node_d mc) of
            (PW pw, PW mpw) \<Rightarrow>
              let (i1, pw1, d1) =
                    (if node_id passwd \<noteq> node_id mc
                     then (node_id mc, pw\<lparr>pw_uid := pw_uid mpw\<rparr>, dirty + 1)
                     else (node_id passwd, pw, dirty));
                  (pw2, d2) =
                    (if pw_gid pw1 \<noteq> pw_gid mpw
                     then (pw1\<lparr>pw_gid := pw_gid mpw\<rparr>, d1 + 1)
                     else (pw1, d1))
              in
              then_res (if \<not> keepgecos i1 then null_or_differs (pw_gecos pw2) (pw_gecos mpw)
                        else Inr False) (\<lambda>g.
              let (pw3, d3) = (if g then (pw2\<lparr>pw_gecos := pw_gecos mpw\<rparr>, d2 + 1) else (pw2, d2))
              in
              then_res (if \<not> keephome i1 then null_or_differs (pw_dir pw3) (pw_dir mpw)
                        else Inr False) (\<lambda>h.
              let (pw4, d4) = (if h then (pw3\<lparr>pw_dir := pw_dir mpw\<rparr>, d3 + 1) else (pw3, d3))
              in
              then_res (if \<not> keepshell i1 then null_or_differs (pw_shell pw4) (pw_shell mpw)
                        else Inr False) (\<lambda>s.
              let (pw5, d5) = (if s then (pw4\<lparr>pw_shell := pw_shell mpw\<rparr>, d4 + 1) else (pw4, d4))
              in Inr (passwd\<lparr>node_d := PW pw5, node_id := i1\<rparr>, d5))))
          | _ \<Rightarrow> Inl InactiveMember))"

fun process_changed_accounts :: "node list \<Rightarrow> node list \<Rightarrow> nat \<Rightarrow> fault + (node list \<times> nat)" where
  "process_changed_accounts [] master dirty = Inr ([], dirty)"
| "process_changed_accounts (passwd # rest) master dirty =
     then_res (changed_account master passwd dirty) (\<lambda>(n, c).
     then_res (process_changed_accounts rest master c) (\<lambda>(l, c'). Inr (n # l, c')))"

text \<open>The body of the loop of \<^verbatim>\<open>process_changed_groups\<close>, through the member \<open>gr\<close>.\<close>

definition changed_group :: "node list \<Rightarrow> node \<Rightarrow> nat \<Rightarrow> fault + (node \<times> nat)" where
  "changed_group master grp dirty =
     (if node_id grp > 99 then Inr (grp, dirty)
      else case find_by_named_entry master grp of
        None \<Rightarrow> Inr (grp, dirty)
      | Some mc \<Rightarrow>
         (if node_id grp \<noteq> node_id mc then
            (case (node_d grp, node_d mc) of
               (GR gr, GR mgr) \<Rightarrow>
                 Inr (grp\<lparr>node_d := GR (gr\<lparr>gr_gid := gr_gid mgr\<rparr>), node_id := node_id mc\<rparr>,
                      dirty + 1)
             | _ \<Rightarrow> Inl InactiveMember)
          else Inr (grp, dirty)))"

fun process_changed_groups :: "node list \<Rightarrow> node list \<Rightarrow> nat \<Rightarrow> fault + (node list \<times> nat)" where
  "process_changed_groups [] master dirty = Inr ([], dirty)"
| "process_changed_groups (grp # rest) master dirty =
     then_res (changed_group master grp dirty) (\<lambda>(n, c).
     then_res (process_changed_groups rest master c) (\<lambda>(l, c'). Inr (n # l, c')))"

section \<open>Loading\<close>

text \<open>
  The line parser of the C library is outside the program. A file is given by what the
  parser delivers: the open fails (\<open>OpenFailed e\<close>, \<open>e\<close> iff \<^verbatim>\<open>errno\<close> is \<^verbatim>\<open>ENOENT\<close>),
  or it yields entries until a call fails (\<open>Parsed es e\<close>, \<open>e\<close> iff \<^verbatim>\<open>errno\<close> is then
  \<^verbatim>\<open>ENOENT\<close>, the end of the file). The loop body sets tag, name and \<open>id\<close> and adds the
  node; a name that begins with \<^verbatim>\<open>+\<close> gets \<open>INT_MAX\<close> in the passwd and group readers,
  every shadow node gets 0. \<open>read_file\<close> is the common shape of the three readers.
\<close>

datatype 'a source = OpenFailed bool | Parsed "'a list" bool

definition name_plus :: "string \<Rightarrow> bool" where
  "name_plus nm = (case nm of [] \<Rightarrow> False | c # _ \<Rightarrow> c = CHR ''+'')"

definition passwd_node :: "passwd \<Rightarrow> node" where
  "passwd_node pw =
     \<lparr>node_d = PW pw, node_name = pw_name pw,
      node_id = (if name_plus (pw_name pw) then INT_MAX else pw_uid pw)\<rparr>"

definition group_node :: "group \<Rightarrow> node" where
  "group_node gr =
     \<lparr>node_d = GR gr, node_name = gr_name gr,
      node_id = (if name_plus (gr_name gr) then INT_MAX else gr_gid gr)\<rparr>"

definition shadow_node :: "spwd \<Rightarrow> node" where
  "shadow_node sp = \<lparr>node_d = SP sp, node_name = sp_namp sp, node_id = 0\<rparr>"

fun read_loop :: "('a \<Rightarrow> node) \<Rightarrow> node list \<Rightarrow> 'a list \<Rightarrow> node list" where
  "read_loop mk list [] = list"
| "read_loop mk list (e # es) = read_loop mk (add_node list (mk e)) es"

definition read_file :: "('a \<Rightarrow> node) \<Rightarrow> node list \<Rightarrow> 'a source \<Rightarrow> nat \<times> node list" where
  "read_file mk list src =
     (case src of
        OpenFailed _ \<Rightarrow> (1, list)
      | Parsed es enoent \<Rightarrow>
          (let l = read_loop mk list es in if \<not> enoent then (2, l) else (0, l)))"

definition read_passwd :: "node list \<Rightarrow> passwd source \<Rightarrow> nat \<times> node list" where
  "read_passwd list src = read_file passwd_node list src"

definition read_group :: "node list \<Rightarrow> group source \<Rightarrow> nat \<times> node list" where
  "read_group list src = read_file group_node list src"

definition read_shadow :: "node list \<Rightarrow> spwd source \<Rightarrow> nat \<times> node list" where
  "read_shadow list src = read_file shadow_node list src"

text \<open>\<^verbatim>\<open>errno\<close> after a reader has returned: whether it is \<^verbatim>\<open>ENOENT\<close>.\<close>

definition errno_enoent :: "'a source \<Rightarrow> bool" where
  "errno_enoent src = (case src of OpenFailed e \<Rightarrow> e | Parsed _ e \<Rightarrow> e)"

section \<open>Commit manager\<close>

text \<open>
  The file system maps a path to a file: the entries written to it, in order, and the
  attributes that \<^verbatim>\<open>copy_filemodes\<close> reads and sets. Each system call takes from the
  environment whether it is allowed to succeed; it fails as well when its file is absent.
\<close>

record file_rec =
  f_content :: "entry list"
  f_mode :: nat
  f_uid :: nat
  f_gid :: nat
  f_islnk :: bool

type_synonym filesys = "string \<Rightarrow> file_rec option"

definition PATH_MAX :: nat where "PATH_MAX = 4096"
definition WRITE_EXTENSION :: string where "WRITE_EXTENSION = ''.upwd-write''"
definition UNLINK_EXTENSION :: string where "UNLINK_EXTENSION = ''.upwd-unlink''"

text \<open>\<^verbatim>\<open>snprintf(buf, PATH_MAX, "%s%s", a, b)\<close>: at most \<open>PATH_MAX - 1\<close> characters.\<close>

definition snprintf_path :: "string \<Rightarrow> string \<Rightarrow> string" where
  "snprintf_path a b = take (PATH_MAX - 1) (a @ b)"

subsection \<open>Staging\<close>

record wenv =
  w_fopen_ok :: bool
  w_put_limit :: "nat option"
  w_fclose_ok :: bool
  w_new_mode :: nat
  w_new_uid :: nat
  w_new_gid :: nat

text \<open>
  The loop of the three writers: the assertion on the tag, then the write of the
  entry. \<open>lim = Some k\<close>: the first \<open>k\<close> writes succeed and the next one fails. The
  result is whether every write succeeded and the entries that reached the file.
\<close>

fun put_entries :: "(entry \<Rightarrow> bool) \<Rightarrow> nat option \<Rightarrow> node list \<Rightarrow> fault + (bool \<times> entry list)" where
  "put_entries tag lim [] = Inr (True, [])"
| "put_entries tag lim (n # rest) =
     (if \<not> tag (node_d n) then Inl AssertionFailed
      else if lim = Some 0 then Inr (False, [])
      else then_res (put_entries tag (map_option (\<lambda>k. k - 1) lim) rest)
             (\<lambda>(ok, out). Inr (ok, node_d n # out)))"

text \<open>
  \<^verbatim>\<open>fopen(file, "wt")\<close> creates the file or empties it. The writers return 0 when the
  open, a write or the close fails, and 1 otherwise; none of them removes the file.
\<close>

definition write_list :: "(entry \<Rightarrow> bool) \<Rightarrow> wenv \<Rightarrow> filesys \<Rightarrow> node list \<Rightarrow> string \<Rightarrow> fault + (bool \<times> filesys)" where
  "write_list tag env fs list fname =
     (if \<not> w_fopen_ok env then Inr (False, fs)
      else
        let opened = (case fs fname of
                        None \<Rightarrow> \<lparr>f_content = [], f_mode = w_new_mode env, f_uid = w_new_uid env,
                                  f_gid = w_new_gid env, f_islnk = False\<rparr>
                      | Some f \<Rightarrow> f\<lparr>f_content := []\<rparr>)
        in then_res (put_entries tag (w_put_limit env) list) (\<lambda>(ok, out).
             let fs' = fs(fname \<mapsto> opened\<lparr>f_content := out\<rparr>)
             in if \<not> ok then Inr (False, fs')
                else if \<not> w_fclose_ok env then Inr (False, fs')
                else Inr (True, fs')))"

definition is_passwd :: "entry \<Rightarrow> bool" where
  "is_passwd e = (case e of PW _ \<Rightarrow> True | _ \<Rightarrow> False)"

definition is_shadow :: "entry \<Rightarrow> bool" where
  "is_shadow e = (case e of SP _ \<Rightarrow> True | _ \<Rightarrow> False)"

definition is_group :: "entry \<Rightarrow> bool" where
  "is_group e = (case e of GR _ \<Rightarrow> True | _ \<Rightarrow> False)"

definition write_passwd :: "wenv \<Rightarrow> filesys \<Rightarrow> node list \<Rightarrow> string \<Rightarrow> fault + (bool \<times> filesys)" where
  "write_passwd env fs passwd fname = write_list is_passwd env fs passwd fname"

definition write_shadow :: "wenv \<Rightarrow> filesys \<Rightarrow> node list \<Rightarrow> string \<Rightarrow> fault + (bool \<times> filesys)" where
  "write_shadow env fs shadow fname = write_list is_shadow env fs shadow fname"

definition write_group :: "wenv \<Rightarrow> filesys \<Rightarrow> node list \<Rightarrow> string \<Rightarrow> fault + (bool \<times> filesys)" where
  "write_group env fs grp fname = write_list is_group env fs grp fname"

subsection \<open>Publishing\<close>

datatype lchown_result = Lchown_ok | Lchown_ENOSYS | Lchown_error

record penv =
  p_rename_aside_ok :: bool
  p_unlink_source_ok :: bool
  p_rename_in_ok :: bool
  p_restore_ok :: bool
  p_lstat_ok :: bool
  p_chmod_ok :: bool
  p_lchown :: lchown_result
  p_lstat_target_ok :: bool
  p_chown_ok :: bool
  p_unlink_aside_ok :: bool

definition unlink_file :: "bool \<Rightarrow> filesys \<Rightarrow> string \<Rightarrow> bool \<times> filesys" where
  "unlink_file ok fs fname =
     (case fs fname of
        None \<Rightarrow> (False, fs)
      | Some _ \<Rightarrow> if ok then (True, fs(fname := None)) else (False, fs))"

definition rename_file :: "bool \<Rightarrow> filesys \<Rightarrow> string \<Rightarrow> string \<Rightarrow> bool \<times> filesys" where
  "rename_file ok fs source target =
     (case fs source of
        None \<Rightarrow> (False, fs)
      | Some f \<Rightarrow> if ok then (True, (fs(source := None))(target \<mapsto> f)) else (False, fs))"

text \<open>
  \<^verbatim>\<open>copy_filemodes\<close>: \<^verbatim>\<open>lstat\<close> of the source, \<^verbatim>\<open>chmod\<close> of the target, then \<^verbatim>\<open>lchown\<close>;
  where \<^verbatim>\<open>lchown\<close> fails with \<^verbatim>\<open>ENOSYS\<close>, \<^verbatim>\<open>lstat\<close> of the target and, unless it is a
  symbolic link, \<^verbatim>\<open>chown\<close>.
\<close>

definition copy_filemodes :: "penv \<Rightarrow> filesys \<Rightarrow> string \<Rightarrow> string \<Rightarrow> bool \<times> filesys" where
  "copy_filemodes env fs source target =
     (case fs source of
        None \<Rightarrow> (False, fs)
      | Some st \<Rightarrow>
          if \<not> p_lstat_ok env then (False, fs)
          else case fs target of
            None \<Rightarrow> (False, fs)
          | Some t \<Rightarrow>
              if \<not> p_chmod_ok env then (False, fs)
              else
                let t1 = t\<lparr>f_mode := f_mode st\<rparr>;
                    fs1 = fs(target \<mapsto> t1);
                    owned = fs(target \<mapsto> t1\<lparr>f_uid := f_uid st, f_gid := f_gid st\<rparr>)
                in case p_lchown env of
                     Lchown_ok \<Rightarrow> (True, owned)
                   | Lchown_error \<Rightarrow> (False, fs1)
                   | Lchown_ENOSYS \<Rightarrow>
                       if \<not> p_lstat_target_ok env then (False, fs1)
                       else if f_islnk t1 then (True, fs1)
                       else if \<not> p_chown_ok env then (False, fs1)
                       else (True, owned))"

text \<open>
  \<^verbatim>\<open>put_file_in_place\<close> returns its result, the file system it leaves, and the file
  systems after each of its steps, in order (the last of them is the one it leaves).
  The call of \<^verbatim>\<open>umask\<close> touches no file and is left out.
\<close>

definition put_file_in_place :: "penv \<Rightarrow> filesys \<Rightarrow> string \<Rightarrow> string \<Rightarrow> bool \<times> filesys \<times> filesys list" where
  "put_file_in_place env fs source target =
     (let uf = snprintf_path target UNLINK_EXTENSION;
          (r1, fs1) = rename_file (p_rename_aside_ok env) fs target uf
      in if \<not> r1 then
           (let (_, fs2) = unlink_file (p_unlink_source_ok env) fs1 source
            in (False, fs2, [fs1, fs2]))
         else
           let (r2, fs2) = rename_file (p_rename_in_ok env) fs1 source target
           in if \<not> r2 then
                (let (_, fs3) = rename_file (p_restore_ok env) fs2 uf target
                 in (False, fs3, [fs1, fs2, fs3]))
              else
                let (r3, fs3) = copy_filemodes env fs2 uf target
                in if \<not> r3 then
                     (let (_, fs4) = unlink_file (p_unlink_aside_ok env) fs3 uf
                      in (False, fs4, [fs1, fs2, fs3, fs4]))
                   else
                     let (r4, fs4) = unlink_file (p_unlink_aside_ok env) fs3 uf
                     in (r4, fs4, [fs1, fs2, fs3, fs4]))"

subsection \<open>Committing the three stores\<close>

text \<open>
  The globals of the program: the options and the paths of the three system files, and
  the five lists with the dirty counter. \<^verbatim>\<open>opt_verbose\<close> only prints and is left out.
\<close>

record opts =
  opt_dryrun :: bool
  opt_nolock :: bool
  opt_sanity :: bool
  sys_passwd :: string
  sys_shadow :: string
  sys_group :: string

record prog =
  master_accounts :: "node list"
  master_groups :: "node list"
  system_accounts :: "node list"
  system_shadow :: "node list"
  system_groups :: "node list"
  flag_dirty :: nat

record cenv =
  c_write_passwd :: wenv
  c_put_passwd :: penv
  c_write_shadow :: wenv
  c_put_shadow :: penv
  c_write_group :: wenv
  c_put_group :: penv
  c_lckpwdf_ok :: bool
  c_ulckpwdf_ok :: bool

definition commit_group :: "opts \<Rightarrow> cenv \<Rightarrow> prog \<Rightarrow> filesys \<Rightarrow> fault + (bool \<times> filesys)" where
  "commit_group opt env p fs =
     (let wf = snprintf_path (sys_group opt) WRITE_EXTENSION
      in then_res (write_group (c_write_group env) fs (system_groups p) wf) (\<lambda>(w, fs1).
           if \<not> w then Inr (False, fs1)
           else let (r, fs2, _) = put_file_in_place (c_put_group env) fs1 wf (sys_group opt)
                in if \<not> r then Inr (False, fs2) else Inr (True, fs2)))"

definition commit_shadow :: "opts \<Rightarrow> cenv \<Rightarrow> prog \<Rightarrow> filesys \<Rightarrow> fault + (bool \<times> filesys)" where
  "commit_shadow opt env p fs =
     (if system_shadow p \<noteq> [] then
        (let wf = snprintf_path (sys_shadow opt) WRITE_EXTENSION
         in then_res (write_shadow (c_write_shadow env) fs (system_shadow p) wf) (\<lambda>(w, fs1).
              if \<not> w then Inr (False, fs1)
              else let (r, fs2, _) = put_file_in_place (c_put_shadow env) fs1 wf (sys_shadow opt)
                   in if \<not> r then Inr (False, fs2) else commit_group opt env p fs2))
      else commit_group opt env p fs)"

text \<open>
  \<^verbatim>\<open>commit_files\<close>: nothing to do on a zero counter or in a dry run; otherwise the
  passwd list, the shadow list if it is not empty, and the group list, each written to
  its staging name and put in place, returning 0 at the first step that fails.
  \<open>commit_shadow\<close> and \<open>commit_group\<close> are the rest of the function from the shadow
  block and from the group block on.
\<close>

definition commit_files :: "opts \<Rightarrow> cenv \<Rightarrow> prog \<Rightarrow> filesys \<Rightarrow> fault + (bool \<times> filesys)" where
  "commit_files opt env p fs =
     (if flag_dirty p = 0 then Inr (True, fs)
      else if opt_dryrun opt then Inr (True, fs)
      else
        let wf = snprintf_path (sys_passwd opt) WRITE_EXTENSION
        in then_res (write_passwd (c_write_passwd env) fs (system_accounts p) wf) (\<lambda>(w, fs1).
             if \<not> w then Inr (False, fs1)
             else let (r, fs2, _) = put_file_in_place (c_put_passwd env) fs1 wf (sys_passwd opt)
                  in if \<not> r then Inr (False, fs2) else commit_shadow opt env p fs2))"

section \<open>The main program\<close>

record inputs =
  in_master_passwd :: "passwd source"
  in_master_group :: "group source"
  in_sys_passwd :: "passwd source"
  in_sys_shadow :: "spwd source"
  in_sys_group :: "group source"

text \<open>The five reads of \<^verbatim>\<open>main\<close>; \<open>None\<close> is its \<^verbatim>\<open>return 2\<close>.\<close>

definition main_load :: "inputs \<Rightarrow> prog option" where
  "main_load inp =
     (let (r1, ma) = read_passwd [] (in_master_passwd inp) in
      if r1 \<noteq> 0 then None else
      let (r2, mg) = read_group [] (in_master_group inp) in
      if r2 \<noteq> 0 then None else
      let (r3, sa) = read_passwd [] (in_sys_passwd inp) in
      if r3 \<noteq> 0 then None else
      let (r4, ss) = read_shadow [] (in_sys_shadow inp) in
      if r4 \<noteq> 0 \<and> \<not> errno_enoent (in_sys_shadow inp) then None else
      let (r5, sg) = read_group [] (in_sys_group inp) in
      if r5 \<noteq> 0 then None else
      Some \<lparr>master_accounts = ma, master_groups = mg, system_accounts = sa,
            system_shadow = ss, system_groups = sg, flag_dirty = 0\<rparr>)"

text \<open>The six calls of \<^verbatim>\<open>main\<close> that reconcile the accounts and then the groups.\<close>

definition main_reconcile :: "prog \<Rightarrow> fault + prog" where
  "main_reconcile p =
     then_res (process_new_entries (system_accounts p) (master_accounts p) (flag_dirty p)) (\<lambda>(a1, d1).
     then_res (process_old_entries a1 (master_accounts p) d1) (\<lambda>(a2, d2).
     then_res (process_changed_accounts a2 (master_accounts p) d2) (\<lambda>(a3, d3).
     then_res (process_new_entries (system_groups p) (master_groups p) d3) (\<lambda>(g1, d4).
     then_res (process_old_entries g1 (master_groups p) d4) (\<lambda>(g2, d5).
     then_res (process_changed_groups g2 (master_groups p) d5) (\<lambda>(g3, d6).
       Inr (p\<lparr>system_accounts := a3, system_groups := g3, flag_dirty := d6\<rparr>)))))))"

datatype lock_call = Lckpwdf | Ulckpwdf

record outcome =
  out_status :: nat
  out_prog :: prog
  out_files :: filesys
  out_locks :: "lock_call list"

text \<open>
  The end of \<^verbatim>\<open>main\<close>, from the test of \<^verbatim>\<open>opt_sanity\<close>: the exit status, the file
  system and the calls of the lock primitives made, in order.
\<close>

definition main_finish :: "opts \<Rightarrow> cenv \<Rightarrow> prog \<Rightarrow> filesys \<Rightarrow> fault + outcome" where
  "main_finish opt env p fs =
     (if opt_sanity opt then
        Inr \<lparr>out_status = 0, out_prog = p, out_files = fs, out_locks = []\<rparr>
      else
        let locking = (\<not> opt_nolock opt \<and> \<not> opt_dryrun opt);
            l1 = (if locking then [Lckpwdf] else [])
        in if locking \<and> \<not> c_lckpwdf_ok env then
             Inr \<lparr>out_status = 3, out_prog = p, out_files = fs, out_locks = l1\<rparr>
           else
             then_res (commit_files opt env p fs) (\<lambda>(c, fs').
               if \<not> c then
                 Inr \<lparr>out_status = 4, out_prog = p, out_files = fs', out_locks = l1 @ [Ulckpwdf]\<rparr>
               else if locking \<and> \<not> c_ulckpwdf_ok env then
                 Inr \<lparr>out_status = 5, out_prog = p, out_files = fs', out_locks = l1 @ [Ulckpwdf]\<rparr>
               else if opt_dryrun opt then
                 Inr \<lparr>out_status = flag_dirty p, out_prog = p, out_files = fs',
                      out_locks = (if locking then l1 @ [Ulckpwdf] else l1)\<rparr>
               else
                 Inr \<lparr>out_status = 0, out_prog = p, out_files = fs',
                      out_locks = (if locking then l1 @ [Ulckpwdf] else l1)\<rparr>))"

text \<open>
  \<^verbatim>\<open>main\<close> after the options are parsed. A failed load returns 2 with nothing loaded
  into the result.
\<close>

definition main :: "opts \<Rightarrow> cenv \<Rightarrow> inputs \<Rightarrow> filesys \<Rightarrow> fault + outcome" where
  "main opt env inp fs =
     (case main_load inp of
        None \<Rightarrow>
          Inr \<lparr>out_status = 2,
               out_prog = \<lparr>master_accounts = [], master_groups = [], system_accounts = [],
                           system_shadow = [], system_groups = [], flag_dirty = 0\<rparr>,
               out_files = fs, out_locks = []\<rparr>
      | Some p \<Rightarrow> then_res (main_reconcile p) (\<lambda>p'. main_finish opt env p' fs))"

section \<open>Notions of the specification\<close>

text \<open>
  The three conditions under which \<^verbatim>\<open>process_old_entries\<close> removes a node: \<open>id\<close> in
  0 to 99, no \<open>FL_NOAUTOREMOVE\<close> for it, and no entry of that name in the master list.
\<close>

definition removable :: "node list \<Rightarrow> node \<Rightarrow> bool" where
  "removable master n \<longleftrightarrow>
     node_id n \<le> 99 \<and> \<not> noautoremove (node_id n) \<and> find_by_named_entry master n = None"

text \<open>
  The link between the \<open>id\<close> of a node and the user ID of its entry that the passwd
  reader establishes: they are equal unless the name begins with \<^verbatim>\<open>+\<close>.
\<close>

definition uid_is_id :: "node \<Rightarrow> bool" where
  "uid_is_id n =
     (case node_d n of
        PW pw \<Rightarrow> node_id n = (if name_plus (node_name n) then INT_MAX else pw_uid pw)
      | _ \<Rightarrow> True)"

text \<open>
  The changes that the specification counts for one account: one for a user ID, a
  group ID or a string field that differs from the master's and is not kept by policy.
  A string field counts as equal only if it is there.
\<close>

definition field_changes :: "bool \<Rightarrow> string option \<Rightarrow> string option \<Rightarrow> nat" where
  "field_changes keep live mast = (if keep then 0 else if live \<noteq> None \<and> live = mast then 0 else 1)"

definition account_changes :: "node list \<Rightarrow> node \<Rightarrow> nat" where
  "account_changes master n =
     (if 99 < node_id n then 0
      else case find_by_named_entry master n of
        None \<Rightarrow> 0
      | Some mc \<Rightarrow>
          (case (node_d n, node_d mc) of
             (PW pw, PW mpw) \<Rightarrow>
               (if node_id n = node_id mc then 0 else 1)
               + (if pw_gid pw = pw_gid mpw then 0 else 1)
               + field_changes (keepgecos (node_id mc)) (pw_gecos pw) (pw_gecos mpw)
               + field_changes (keephome (node_id mc)) (pw_dir pw) (pw_dir mpw)
               + field_changes (keepshell (node_id mc)) (pw_shell pw) (pw_shell mpw)
           | _ \<Rightarrow> 0))"





text \<open>
  Staging as the environment decides it: the number of entries written, whether the
  writer fails, the staging file it leaves, and the file system it leaves. \<open>stage_left\<close>
  says of that file system that the destination and every path but the staging name
  are as before, that the staging file is there with the entries written if the open
  succeeded, and that nothing changed if it did not.
\<close>

definition writes_done :: "wenv \<Rightarrow> node list \<Rightarrow> nat" where
  "writes_done e l = (case w_put_limit e of None \<Rightarrow> length l | Some k \<Rightarrow> min k (length l))"

definition stage_fails :: "wenv \<Rightarrow> node list \<Rightarrow> bool" where
  "stage_fails e l =
     (\<not> w_fopen_ok e \<or> (case w_put_limit e of None \<Rightarrow> False | Some k \<Rightarrow> k < length l)
      \<or> \<not> w_fclose_ok e)"

definition staged_file :: "wenv \<Rightarrow> file_rec option \<Rightarrow> entry list \<Rightarrow> file_rec" where
  "staged_file e before out =
     (case before of
        None \<Rightarrow> \<lparr>f_content = out, f_mode = w_new_mode e, f_uid = w_new_uid e,
                  f_gid = w_new_gid e, f_islnk = False\<rparr>
      | Some f \<Rightarrow> f\<lparr>f_content := out\<rparr>)"

definition left_by_writer :: "wenv \<Rightarrow> filesys \<Rightarrow> node list \<Rightarrow> string \<Rightarrow> filesys" where
  "left_by_writer e fs l fname =
     (if w_fopen_ok e
      then fs(fname \<mapsto> staged_file e (fs fname) (map node_d (take (writes_done e l) l)))
      else fs)"

definition stage_left :: "wenv \<Rightarrow> filesys \<Rightarrow> node list \<Rightarrow> string \<Rightarrow> bool" where
  "stage_left e fs l dest =
     (left_by_writer e fs l (snprintf_path dest WRITE_EXTENSION) dest = fs dest
      \<and> (\<forall>q. q \<noteq> snprintf_path dest WRITE_EXTENSION \<longrightarrow>
            left_by_writer e fs l (snprintf_path dest WRITE_EXTENSION) q = fs q)
      \<and> (w_fopen_ok e \<longrightarrow>
            (\<exists>f. left_by_writer e fs l (snprintf_path dest WRITE_EXTENSION)
                    (snprintf_path dest WRITE_EXTENSION) = Some f
                 \<and> f_content f = map node_d (take (writes_done e l) l)))
      \<and> (\<not> w_fopen_ok e \<longrightarrow> left_by_writer e fs l (snprintf_path dest WRITE_EXTENSION) = fs))"


text \<open>What a commit returned, and the file it left at a path.\<close>

definition result_of :: "fault + (bool \<times> filesys) \<Rightarrow> bool option" where
  "result_of res = (case res of Inl _ \<Rightarrow> None | Inr (r, _) \<Rightarrow> Some r)"

definition file_at :: "fault + (bool \<times> filesys) \<Rightarrow> string \<Rightarrow> file_rec option" where
  "file_at res path = (case res of Inl _ \<Rightarrow> None | Inr (_, fs) \<Rightarrow> fs path)"

section \<open>Example stores\<close>

text \<open>An account and a group as a complete line of their file gives them.\<close>

definition account :: "string \<Rightarrow> u32 \<Rightarrow> passwd" where
  "account nm i =
     \<lparr>pw_name = nm, pw_passwd = Some ''x'', pw_uid = i, pw_gid = i, pw_gecos = Some nm,
      pw_dir = Some ''/'', pw_shell = Some ''/bin/sh''\<rparr>"

definition grp :: "string \<Rightarrow> u32 \<Rightarrow> group" where
  "grp nm i = \<lparr>gr_name = nm, gr_passwd = Some ''x'', gr_gid = i, gr_mem = []\<rparr>"

text \<open>The line \<^verbatim>\<open>+\<close> alone, as the parser of the C library fills the entry.\<close>

definition plus_line :: passwd where
  "plus_line =
     \<lparr>pw_name = ''+'', pw_passwd = None, pw_uid = 0, pw_gid = 0, pw_gecos = None,
      pw_dir = None, pw_shell = None\<rparr>"

definition root_shadow :: spwd where
  "root_shadow =
     \<lparr>sp_namp = ''root'', sp_pwdp = Some ''*'', sp_lstchg = 10000, sp_min = 0, sp_max = 99999,
      sp_warn = 7, sp_inact = - 1, sp_expire = - 1, sp_flag = Some (- 1)\<rparr>"

text \<open>
  A live list with two stale accounts in a row, and the program state that holds it
  behind \<open>root\<close>.
\<close>

definition stale_store :: "node list" where
  "stale_store =
     [passwd_node (account ''a'' 50), passwd_node (account ''b'' 51),
      passwd_node (account ''u'' 1000)]"

definition churn_prog :: prog where
  "churn_prog =
     \<lparr>master_accounts = [passwd_node (account ''root'' 0)], master_groups = [],
      system_accounts = passwd_node (account ''root'' 0) # stale_store,
      system_shadow = [], system_groups = [], flag_dirty = 0\<rparr>"

text \<open>
  The account \<open>www-data\<close> in the live list, in the master list, and after the update;
  its \<open>id\<close> 33 carries \<open>FL_KEEPHOME\<close>.
\<close>

definition www_live :: passwd where
  "www_live =
     \<lparr>pw_name = ''www-data'', pw_passwd = Some ''x'', pw_uid = 33, pw_gid = 34,
      pw_gecos = Some ''web'', pw_dir = Some ''/srv/www'', pw_shell = Some ''/bin/sh''\<rparr>"

definition www_master :: passwd where
  "www_master =
     \<lparr>pw_name = ''www-data'', pw_passwd = Some ''*'', pw_uid = 33, pw_gid = 33,
      pw_gecos = Some ''www-data'', pw_dir = Some ''/var/www'', pw_shell = Some ''/bin/sh''\<rparr>"

definition www_synced :: passwd where
  "www_synced =
     \<lparr>pw_name = ''www-data'', pw_passwd = Some ''x'', pw_uid = 33, pw_gid = 33,
      pw_gecos = Some ''www-data'', pw_dir = Some ''/srv/www'', pw_shell = Some ''/bin/sh''\<rparr>"

text \<open>A master list with an account outside the range 0 to 99.\<close>

definition bob_prog :: prog where
  "bob_prog =
     \<lparr>master_accounts = [passwd_node (account ''root'' 0), passwd_node (account ''bob'' 1000)],
      master_groups = [], system_accounts = [passwd_node (account ''root'' 0)],
      system_shadow = [], system_groups = [], flag_dirty = 0\<rparr>"

text \<open>
  A file system with the passwd file and its staged replacement, and environments for
  \<^verbatim>\<open>put_file_in_place\<close>: every call succeeds; the first rename fails; the second
  rename fails; the second rename and the restoring rename fail. Modes are 0644 and
  0600.
\<close>

definition old_file :: file_rec where
  "old_file = \<lparr>f_content = [PW (account ''root'' 0)], f_mode = 420, f_uid = 0, f_gid = 0, f_islnk = False\<rparr>"



definition publish_ok :: penv where
  "publish_ok =
     \<lparr>p_rename_aside_ok = True, p_unlink_source_ok = True, p_rename_in_ok = True,
      p_restore_ok = True, p_lstat_ok = True, p_chmod_ok = True, p_lchown = Lchown_ok,
      p_lstat_target_ok = True, p_chown_ok = True, p_unlink_aside_ok = True\<rparr>"




text \<open>
  A run whose three writers fail: the second write of the passwd writer, the open of
  the shadow writer, the close of the group writer.
\<close>

definition default_opts :: opts where
  "default_opts =
     \<lparr>opt_dryrun = False, opt_nolock = False, opt_sanity = False,
      sys_passwd = ''/etc/passwd'', sys_shadow = ''/etc/shadow'', sys_group = ''/etc/group''\<rparr>"

definition write_ok :: wenv where
  "write_ok =
     \<lparr>w_fopen_ok = True, w_put_limit = None, w_fclose_ok = True,
      w_new_mode = 384, w_new_uid = 0, w_new_gid = 0\<rparr>"

definition stage_fail_env :: cenv where
  "stage_fail_env =
     \<lparr>c_write_passwd = write_ok\<lparr>w_put_limit := Some 1\<rparr>, c_put_passwd = publish_ok,
      c_write_shadow = write_ok\<lparr>w_fopen_ok := False\<rparr>, c_put_shadow = publish_ok,
      c_write_group = write_ok\<lparr>w_fclose_ok := False\<rparr>, c_put_group = publish_ok,
      c_lckpwdf_ok = True, c_ulckpwdf_ok = True\<rparr>"

definition dirty_prog :: prog where
  "dirty_prog =
     \<lparr>master_accounts = [passwd_node (account ''root'' 0), passwd_node (account ''svc'' 50)],
      master_groups = [group_node (grp ''root'' 0)],
      system_accounts = [passwd_node (account ''root'' 0), passwd_node (account ''svc'' 50)],
      system_shadow = [shadow_node root_shadow],
      system_groups = [group_node (grp ''root'' 0)],
      flag_dirty = 1\<rparr>"

definition passwd_fs :: filesys where
  "passwd_fs = [''/etc/passwd'' \<mapsto> old_file]"

definition partial_file :: file_rec where
  "partial_file =
     \<lparr>f_content = [PW (account ''root'' 0)], f_mode = 384, f_uid = 0, f_gid = 0, f_islnk = False\<rparr>"

definition unclosed_file :: file_rec where
  "unclosed_file =
     \<lparr>f_content = [GR (grp ''root'' 0)], f_mode = 384, f_uid = 0, f_gid = 0, f_islnk = False\<rparr>"

text \<open>Input files: a master with an account \<open>svc\<close> that the system lacks.\<close>

definition svc_inputs :: inputs where
  "svc_inputs =
     \<lparr>in_master_passwd = Parsed [account ''root'' 0, account ''svc'' 50] True,
      in_master_group = Parsed [grp ''root'' 0] True,
      in_sys_passwd = Parsed [account ''root'' 0] True,
      in_sys_shadow = OpenFailed True,
      in_sys_group = Parsed [grp ''root'' 0] True\<rparr>"

definition svc_loaded :: prog where
  "svc_loaded =
     \<lparr>master_accounts = [passwd_node (account ''root'' 0), passwd_node (account ''svc'' 50)],
      master_groups = [group_node (grp ''root'' 0)],
      system_accounts = [passwd_node (account ''root'' 0)],
      system_shadow = [],
      system_groups = [group_node (grp ''root'' 0)],
      flag_dirty = 0\<rparr>"

text \<open>Input files: a system passwd file without \<open>root\<close> that ends with a \<^verbatim>\<open>+\<close> line.\<close>

definition plus_inputs :: inputs where
  "plus_inputs =
     \<lparr>in_master_passwd = Parsed [account ''root'' 0] True,
      in_master_group = Parsed [] True,
      in_sys_passwd = Parsed [account ''daemon'' 1, plus_line] True,
      in_sys_shadow = OpenFailed True,
      in_sys_group = Parsed [] True\<rparr>"

definition plus_loaded :: prog where
  "plus_loaded =
     \<lparr>master_accounts = [passwd_node (account ''root'' 0)],
      master_groups = [],
      system_accounts = [passwd_node (account ''daemon'' 1), passwd_node plus_line],
      system_shadow = [],
      system_groups = [],
      flag_dirty = 0\<rparr>"

section \<open>Auxiliary facts\<close>

lemma then_res_Inr:
  "then_res r f = Inr y \<longleftrightarrow> (\<exists>x. r = Inr x \<and> f x = Inr y)"
  by (cases r) (simp_all add: then_res_def)



lemma copy_node_id_name:
  "copy_node m = Inr c \<Longrightarrow> node_id c = node_id m \<and> node_name c = node_name m"
  by (auto simp: copy_node_def copy_passwd_def copy_shadow_def copy_group_def then_res_Inr Let_def
      split: entry.splits if_splits)

lemma add_node_walk_mem: "node \<in> set (add_node_walk node l)"
  by (induction l) auto

lemma add_node_mem: "node \<in> set (add_node l node)"
  by (cases l) (auto simp: add_node_walk_mem)

lemma uid_is_id_passwd_node: "uid_is_id (passwd_node pw)"
  by (simp add: uid_is_id_def passwd_node_def)

lemma uid_is_id_copy_node:
  "copy_node m = Inr c \<Longrightarrow> uid_is_id m \<Longrightarrow> uid_is_id c"
  by (auto simp: copy_node_def copy_passwd_def copy_shadow_def copy_group_def then_res_Inr
      Let_def uid_is_id_def split: entry.splits if_splits)

section \<open>Removal of stale entries\<close>

lemma removable_in_range: "removable master n \<Longrightarrow> \<not> 99 < node_id n"
  by (simp add: removable_def not_less)

lemma process_old_entries_keep:
  "\<not> removable master n \<Longrightarrow>
   process_old_entries (n # rest) master d =
     then_res (process_old_entries rest master d) (\<lambda>(l, c). Inr (n # l, c))"
  by (auto simp: removable_def not_le)

lemma process_old_entries_remove:
  assumes "removable master n"
  shows "process_old_entries (n # r # rest) master d =
     then_res (process_old_entries rest master (d + 1)) (\<lambda>(l, c). Inr (r # l, c))"
proof -
  from assms have "\<not> 99 < node_id n" "\<not> noautoremove (node_id n)"
    "find_by_named_entry master n = None"
    by (simp_all add: removable_def not_less)
  then show ?thesis
    by (subst process_old_entries.simps) simp
qed

lemma process_old_entries_remove_last:
  assumes "removable master n"
  shows "process_old_entries [n] master d = Inl NullPointer"
proof -
  from assms have "\<not> 99 < node_id n" "\<not> noautoremove (node_id n)"
    "find_by_named_entry master n = None"
    by (simp_all add: removable_def not_less)
  then show ?thesis by simp
qed

lemma process_old_entries_keeps_outside:
  "process_old_entries live master d = Inr (live', d') \<Longrightarrow>
   filter (\<lambda>n. 99 < node_id n) live' = filter (\<lambda>n. 99 < node_id n) live"
proof (induction live arbitrary: live' d d' rule: length_induct)
  case (1 live)
  have ih: "filter (\<lambda>n. 99 < node_id n) l = filter (\<lambda>n. 99 < node_id n) ys"
    if "length ys < length live" "process_old_entries ys master a = Inr (l, b)" for ys l a b
    using "1.IH" that by blast
  show ?case
  proof (cases live)
    case Nil
    with "1.prems" show ?thesis by simp
  next
    case (Cons n rest)
    show ?thesis
    proof (cases "removable master n")
      case False
      from "1.prems" obtain l where
        r: "process_old_entries rest master d = Inr (l, d')" and l: "live' = n # l"
        unfolding Cons process_old_entries_keep [OF False] then_res_Inr by auto
      from Cons have "length rest < length live" by simp
      from ih [OF this r]
      have "filter (\<lambda>n. 99 < node_id n) l = filter (\<lambda>n. 99 < node_id n) rest" .
      with l Cons show ?thesis by simp
    next
      case True
      show ?thesis
      proof (cases rest)
        case Nil
        with "1.prems" Cons process_old_entries_remove_last [OF True] show ?thesis by simp
      next
        case (Cons r rest')
        from "1.prems" obtain l where
          run: "process_old_entries rest' master (d + 1) = Inr (l, d')" and l: "live' = r # l"
          unfolding \<open>live = n # rest\<close> Cons process_old_entries_remove [OF True] then_res_Inr
          by auto
        from Cons \<open>live = n # rest\<close> have "length rest' < length live" by simp
        from ih [OF this run]
        have "filter (\<lambda>n. 99 < node_id n) l = filter (\<lambda>n. 99 < node_id n) rest'" .
        with l Cons \<open>live = n # rest\<close> removable_in_range [OF True] show ?thesis by simp
      qed
    qed
  qed
qed

text \<open>
  Claim C1: after one pass every live record with \<open>id\<close> in 0 to 99, without
  \<open>FL_NOAUTOREMOVE\<close> and without a master entry of its name is deleted, also where
  several such records follow one another. The code departs from it: on the list
  \<open>root\<close>, \<open>a\<close> (50), \<open>b\<close> (51), \<open>u\<close> (1000) with only \<open>root\<close> in the master list,
  \<open>a\<close> is removed and the counter is 1, but \<open>b\<close>, which fulfils the three
  conditions, is stepped over and stays.
\<close>

theorem process_old_entries_skips_successor:
  "process_old_entries (passwd_node (account ''root'' 0) # stale_store)
       [passwd_node (account ''root'' 0)] 0
     = Inr ([passwd_node (account ''root'' 0), passwd_node (account ''b'' 51),
             passwd_node (account ''u'' 1000)], 1)
   \<and> removable [passwd_node (account ''root'' 0)] (passwd_node (account ''a'' 50))
   \<and> removable [passwd_node (account ''root'' 0)] (passwd_node (account ''b'' 51))"
  by code_simp

section \<open>Insertion\<close>

text \<open>
  Where the head is not replaced, \<^verbatim>\<open>add_node\<close> keeps every node; and it keeps a list
  ordered by \<open>id\<close> ordered.
\<close>

lemma set_add_node_walk: "set (add_node_walk n xs) = insert n (set xs)"
  by (induction xs) auto

lemma sorted_add_node_walk:
  "sorted (map node_id (x # xs)) \<Longrightarrow> node_id x \<le> node_id n \<Longrightarrow>
   sorted (map node_id (x # add_node_walk n xs))"
  by (induction xs arbitrary: x) (auto simp: set_add_node_walk)

lemma add_node_sorted:
  assumes "sorted (map node_id xs)"
  shows "sorted (map node_id (add_node xs n))"
proof (cases xs)
  case Nil
  then show ?thesis by simp
next
  case (Cons h rest)
  show ?thesis
  proof (cases "node_id n < node_id h")
    case True
    with Cons show ?thesis by simp
  next
    case False
    then have "node_id h \<le> node_id n" by simp
    from sorted_add_node_walk [OF assms [unfolded Cons] this] False Cons
    show ?thesis by simp
  qed
qed

lemma add_node_keeps:
  "xs = [] \<or> node_id (hd xs) \<le> node_id n \<Longrightarrow> set (add_node xs n) = insert n (set xs)"
  by (cases xs) (auto simp: set_add_node_walk)

text \<open>
  Claim C2: insertion yields a list ordered by \<open>id\<close> that holds the new record and
  every record held before, also when the new \<open>id\<close> is smaller than the head's. The
  code departs from it: adding the account with \<open>id\<close> 3 to the list that holds the
  account with \<open>id\<close> 5 leaves the new account alone in the list.
\<close>

theorem add_node_smaller_id_drops_store:
  "add_node [passwd_node (account ''b'' 5)] (passwd_node (account ''a'' 3))
     = [passwd_node (account ''a'' 3)]
   \<and> passwd_node (account ''b'' 5)
       \<notin> set (add_node [passwd_node (account ''b'' 5)] (passwd_node (account ''a'' 3)))"
  by code_simp

section \<open>Records outside the reserved range\<close>

lemma changed_account_skip:
  "99 < node_id n \<or> find_by_named_entry master n = None \<Longrightarrow>
   changed_account master n d = Inr (n, d) \<and> account_changes master n = 0"
  by (auto simp: changed_account_def account_changes_def)

lemma changed_group_skip:
  "99 < node_id n \<Longrightarrow> changed_group master n d = Inr (n, d)"
  by (simp add: changed_group_def)

lemma process_changed_groups_nth:
  "process_changed_groups live master d = Inr (live', d') \<Longrightarrow>
   length live' = length live
   \<and> (\<forall>i < length live. \<exists>d0 d1. changed_group master (live ! i) d0 = Inr (live' ! i, d1))"
proof (induction live arbitrary: live' d)
  case Nil
  then show ?case by simp
next
  case (Cons n rest)
  from Cons.prems obtain n' c l' where
    step: "changed_group master n d = Inr (n', c)"
    and rest: "process_changed_groups rest master c = Inr (l', d')"
    and l: "live' = n' # l'"
    by (auto simp: then_res_Inr)
  note ih = Cons.IH [OF rest]
  have nth: "\<exists>d0 d1. changed_group master ((n # rest) ! i) d0 = Inr (live' ! i, d1)"
    if "i < length (n # rest)" for i
  proof (cases i)
    case 0
    with step l show ?thesis by auto
  next
    case (Suc j)
    with that ih l show ?thesis by auto
  qed
  with ih l show ?case by simp
qed

lemma sync_field:
  assumes "(if \<not> k then null_or_differs p q else Inr False) = Inr b"
  shows "(if b then q else p) = (if k then p else q)"
    and "(if b then 1 else 0) = field_changes k p q"
  using assms
  by (auto simp: null_or_differs_def field_changes_def split: if_splits option.splits)

lemma changed_account_unfold:
  assumes rng: "node_id n \<le> 99"
    and mc: "find_by_named_entry master n = Some mc"
    and pw: "node_d n = PW pw" and mpw: "node_d mc = PW mpw"
  shows "changed_account master n d =
     then_res (if \<not> keepgecos (node_id mc) then null_or_differs (pw_gecos pw) (pw_gecos mpw) else Inr False) (\<lambda>g.
     then_res (if \<not> keephome (node_id mc) then null_or_differs (pw_dir pw) (pw_dir mpw) else Inr False) (\<lambda>h.
     then_res (if \<not> keepshell (node_id mc) then null_or_differs (pw_shell pw) (pw_shell mpw) else Inr False) (\<lambda>s.
       Inr (n\<lparr>node_d := PW (pw\<lparr>
             pw_uid := (if node_id n \<noteq> node_id mc then pw_uid mpw else pw_uid pw),
             pw_gid := pw_gid mpw,
             pw_gecos := (if g then pw_gecos mpw else pw_gecos pw),
             pw_dir := (if h then pw_dir mpw else pw_dir pw),
             pw_shell := (if s then pw_shell mpw else pw_shell pw)\<rparr>),
           node_id := node_id mc\<rparr>,
           d + (if node_id n = node_id mc then 0 else 1) + (if pw_gid pw = pw_gid mpw then 0 else 1)
             + (if g then 1 else 0) + (if h then 1 else 0) + (if s then 1 else 0)))))"
proof -
  from rng have nr: "\<not> 99 < node_id n" by simp
  show ?thesis
    using nr mc pw mpw
    by (auto simp: changed_account_def then_res_def Let_def split: sum.splits)
qed

lemma changed_account_match:
  assumes run: "changed_account master n d = Inr (n', d')"
    and rng: "node_id n \<le> 99"
    and mc: "find_by_named_entry master n = Some mc"
  shows "\<exists>pw mpw. node_d n = PW pw \<and> node_d mc = PW mpw
      \<and> n' = n\<lparr>node_d := PW (pw\<lparr>
             pw_uid := (if node_id n \<noteq> node_id mc then pw_uid mpw else pw_uid pw),
             pw_gid := pw_gid mpw,
             pw_gecos := (if keepgecos (node_id mc) then pw_gecos pw else pw_gecos mpw),
             pw_dir := (if keephome (node_id mc) then pw_dir pw else pw_dir mpw),
             pw_shell := (if keepshell (node_id mc) then pw_shell pw else pw_shell mpw)\<rparr>),
           node_id := node_id mc\<rparr>
      \<and> d' = d + account_changes master n"
proof -
  from rng have nr: "\<not> 99 < node_id n" by simp
  from run nr mc obtain pw mpw where pw: "node_d n = PW pw" and mpw: "node_d mc = PW mpw"
    by (auto simp: changed_account_def split: entry.splits)
  note unf = changed_account_unfold [OF rng mc pw mpw, of d]
  from run obtain g h s where
    g: "(if \<not> keepgecos (node_id mc) then null_or_differs (pw_gecos pw) (pw_gecos mpw) else Inr False) = Inr g"
    and h: "(if \<not> keephome (node_id mc) then null_or_differs (pw_dir pw) (pw_dir mpw) else Inr False) = Inr h"
    and s: "(if \<not> keepshell (node_id mc) then null_or_differs (pw_shell pw) (pw_shell mpw) else Inr False) = Inr s"
    and n': "n' = n\<lparr>node_d := PW (pw\<lparr>
             pw_uid := (if node_id n \<noteq> node_id mc then pw_uid mpw else pw_uid pw),
             pw_gid := pw_gid mpw,
             pw_gecos := (if g then pw_gecos mpw else pw_gecos pw),
             pw_dir := (if h then pw_dir mpw else pw_dir pw),
             pw_shell := (if s then pw_shell mpw else pw_shell pw)\<rparr>),
           node_id := node_id mc\<rparr>"
    and d': "d' = d + (if node_id n = node_id mc then 0 else 1) + (if pw_gid pw = pw_gid mpw then 0 else 1)
         + (if g then 1 else 0) + (if h then 1 else 0) + (if s then 1 else 0)"
    unfolding unf then_res_Inr by blast
  have ac: "account_changes master n =
      (if node_id n = node_id mc then 0 else 1) + (if pw_gid pw = pw_gid mpw then 0 else 1)
      + field_changes (keepgecos (node_id mc)) (pw_gecos pw) (pw_gecos mpw)
      + field_changes (keephome (node_id mc)) (pw_dir pw) (pw_dir mpw)
      + field_changes (keepshell (node_id mc)) (pw_shell pw) (pw_shell mpw)"
    using nr mc pw mpw by (simp add: account_changes_def)
  have "d' = d + account_changes master n"
    unfolding d' ac sync_field(2) [OF g] sync_field(2) [OF h] sync_field(2) [OF s]
    by simp
  moreover have "n' = n\<lparr>node_d := PW (pw\<lparr>
             pw_uid := (if node_id n \<noteq> node_id mc then pw_uid mpw else pw_uid pw),
             pw_gid := pw_gid mpw,
             pw_gecos := (if keepgecos (node_id mc) then pw_gecos pw else pw_gecos mpw),
             pw_dir := (if keephome (node_id mc) then pw_dir pw else pw_dir mpw),
             pw_shell := (if keepshell (node_id mc) then pw_shell pw else pw_shell mpw)\<rparr>),
           node_id := node_id mc\<rparr>"
    unfolding n' sync_field(1) [OF g, symmetric] sync_field(1) [OF h, symmetric]
      sync_field(1) [OF s, symmetric]
    by (simp cong: if_cong)
  ultimately show ?thesis using pw mpw by blast
qed

lemma changed_account_dirty:
  assumes "changed_account master n d = Inr (n', d')"
  shows "d' = d + account_changes master n"
proof (cases "99 < node_id n \<or> find_by_named_entry master n = None")
  case True
  from changed_account_skip [OF True, of d] assms show ?thesis by simp
next
  case False
  then obtain mc where "node_id n \<le> 99" "find_by_named_entry master n = Some mc"
    by (auto simp: not_less)
  from changed_account_match [OF assms this] show ?thesis by blast
qed

lemma process_changed_accounts_Cons:
  "process_changed_accounts (n # rest) master d = Inr (l, d') \<longleftrightarrow>
     (\<exists>n' c l'. changed_account master n d = Inr (n', c)
        \<and> process_changed_accounts rest master c = Inr (l', d') \<and> l = n' # l')"
  by (auto simp: then_res_Inr)

lemma process_changed_accounts_nth:
  "process_changed_accounts live master d = Inr (live', d') \<Longrightarrow>
   length live' = length live
   \<and> (\<forall>i < length live. \<exists>d0 d1. changed_account master (live ! i) d0 = Inr (live' ! i, d1))
   \<and> d' = d + sum_list (map (account_changes master) live)"
proof (induction live arbitrary: live' d)
  case Nil
  then show ?case by simp
next
  case (Cons n rest)
  from Cons.prems obtain n' c l' where
    step: "changed_account master n d = Inr (n', c)"
    and rest: "process_changed_accounts rest master c = Inr (l', d')"
    and l: "live' = n' # l'"
    unfolding process_changed_accounts_Cons by blast
  note ih = Cons.IH [OF rest]
  have len: "length live' = length (n # rest)" using ih l by simp
  have nth: "\<exists>d0 d1. changed_account master ((n # rest) ! i) d0 = Inr (live' ! i, d1)"
    if "i < length (n # rest)" for i
  proof (cases i)
    case 0
    with step l show ?thesis by auto
  next
    case (Suc j)
    with that ih l show ?thesis by auto
  qed
  have "d' = d + sum_list (map (account_changes master) (n # rest))"
    using ih changed_account_dirty [OF step] by simp
  with len nth show ?case by blast
qed

text \<open>
  Claim C3 as stated fails: a record with \<open>id\<close> 1000 that only the master list holds
  is added to the live list by the pass.
\<close>

theorem reconcile_adds_outside_reserved_range:
  "main_reconcile bob_prog
     = Inr (bob_prog\<lparr>system_accounts :=
              [passwd_node (account ''root'' 0), passwd_node (account ''bob'' 1000)],
              flag_dirty := 1\<rparr>)
   \<and> 99 < node_id (passwd_node (account ''bob'' 1000))
   \<and> passwd_node (account ''bob'' 1000) \<notin> set (system_accounts bob_prog)"
  by code_simp

text \<open>
  Claim C3, amended: \<^verbatim>\<open>process_old_entries\<close>, \<^verbatim>\<open>process_changed_accounts\<close> and
  \<^verbatim>\<open>process_changed_groups\<close>, where they run to their end, leave every live record
  with \<open>id\<close> above 99 in the list and unchanged, whatever the master list holds;
  \<^verbatim>\<open>process_new_entries\<close> has no test of the range and adds the copy of a master
  record with \<open>id\<close> above 99 whose name the live list lacks.
\<close>

theorem reconcile_outside_reserved_range:
  "(process_old_entries live master d = Inr (live', d') \<longrightarrow>
      filter (\<lambda>n. 99 < node_id n) live' = filter (\<lambda>n. 99 < node_id n) live)
   \<and> (process_changed_accounts live master d = Inr (live', d') \<longrightarrow>
        length live' = length live
        \<and> (\<forall>i < length live. 99 < node_id (live ! i) \<longrightarrow> live' ! i = live ! i))
   \<and> (process_changed_groups live master d = Inr (live', d') \<longrightarrow>
        length live' = length live
        \<and> (\<forall>i < length live. 99 < node_id (live ! i) \<longrightarrow> live' ! i = live ! i))
   \<and> (99 < node_id m \<and> find_by_named_entry live m = None \<and> copy_node m = Inr c \<longrightarrow>
        process_new_entries live [m] d = Inr (add_node live c, d + 1)
        \<and> c \<in> set (add_node live c) \<and> 99 < node_id c)"
proof (intro conjI impI)
  assume "process_old_entries live master d = Inr (live', d')"
  then show "filter (\<lambda>n. 99 < node_id n) live' = filter (\<lambda>n. 99 < node_id n) live"
    by (rule process_old_entries_keeps_outside)
next
  assume run: "process_changed_accounts live master d = Inr (live', d')"
  from process_changed_accounts_nth [OF run] show "length live' = length live" by blast
  show "\<forall>i < length live. 99 < node_id (live ! i) \<longrightarrow> live' ! i = live ! i"
  proof (intro allI impI)
    fix i assume i: "i < length live" and out: "99 < node_id (live ! i)"
    from process_changed_accounts_nth [OF run] i obtain d0 d1 where
      "changed_account master (live ! i) d0 = Inr (live' ! i, d1)" by blast
    with changed_account_skip [of "live ! i" master d0] out show "live' ! i = live ! i" by simp
  qed
next
  assume run: "process_changed_groups live master d = Inr (live', d')"
  from process_changed_groups_nth [OF run] show "length live' = length live" by blast
  show "\<forall>i < length live. 99 < node_id (live ! i) \<longrightarrow> live' ! i = live ! i"
  proof (intro allI impI)
    fix i assume i: "i < length live" and out: "99 < node_id (live ! i)"
    from process_changed_groups_nth [OF run] i obtain d0 d1 where
      "changed_group master (live ! i) d0 = Inr (live' ! i, d1)" by blast
    with changed_group_skip [OF out, of master d0] show "live' ! i = live ! i" by simp
  qed
next
  assume h: "99 < node_id m \<and> find_by_named_entry live m = None \<and> copy_node m = Inr c"
  then show "process_new_entries live [m] d = Inr (add_node live c, d + 1)"
    by (simp add: then_res_def)
  show "c \<in> set (add_node live c)" by (rule add_node_mem)
  from h copy_node_id_name [of m c] show "99 < node_id c" by simp
qed

text \<open>
  Witness for C3: a removal next to the account 1000, an update of accounts and of
  groups next to records with \<open>id\<close> 1000, and the addition of the account 1000.
\<close>

theorem reconcile_outside_reserved_range_witness:
  "process_old_entries (passwd_node (account ''root'' 0) # stale_store) [passwd_node (account ''root'' 0)] 0
     = Inr ([passwd_node (account ''root'' 0), passwd_node (account ''b'' 51), passwd_node (account ''u'' 1000)], 1)
   \<and> filter (\<lambda>n. 99 < node_id n) [passwd_node (account ''root'' 0), passwd_node (account ''b'' 51), passwd_node (account ''u'' 1000)]
       = filter (\<lambda>n. 99 < node_id n) (passwd_node (account ''root'' 0) # stale_store)
   \<and> process_changed_accounts [passwd_node www_live, passwd_node (account ''u'' 1000)]
        [passwd_node www_master, passwd_node (account ''u'' 5)] 0
       = Inr ([passwd_node www_synced, passwd_node (account ''u'' 1000)], 2)
   \<and> 99 < node_id ([passwd_node www_live, passwd_node (account ''u'' 1000)] ! 1)
   \<and> [passwd_node www_synced, passwd_node (account ''u'' 1000)] ! 1
       = [passwd_node www_live, passwd_node (account ''u'' 1000)] ! 1
   \<and> process_changed_groups [group_node (grp ''staff'' 50), group_node (grp ''users'' 1000)]
        [group_node (grp ''staff'' 51), group_node (grp ''users'' 100)] 0
       = Inr ([(group_node (grp ''staff'' 51)), group_node (grp ''users'' 1000)], 1)
   \<and> 99 < node_id ([group_node (grp ''staff'' 50), group_node (grp ''users'' 1000)] ! 1)
   \<and> [(group_node (grp ''staff'' 51)), group_node (grp ''users'' 1000)] ! 1
       = [group_node (grp ''staff'' 50), group_node (grp ''users'' 1000)] ! 1
   \<and> 99 < node_id (passwd_node (account ''bob'' 1000))
   \<and> find_by_named_entry [passwd_node (account ''root'' 0)] (passwd_node (account ''bob'' 1000)) = None
   \<and> copy_node (passwd_node (account ''bob'' 1000)) = Inr (passwd_node (account ''bob'' 1000))
   \<and> process_new_entries [passwd_node (account ''root'' 0)] [passwd_node (account ''bob'' 1000)] 7
       = Inr (add_node [passwd_node (account ''root'' 0)] (passwd_node (account ''bob'' 1000)), 7 + 1)"
proof -
  have old: "process_old_entries (passwd_node (account ''root'' 0) # stale_store) [passwd_node (account ''root'' 0)] 0
     = Inr ([passwd_node (account ''root'' 0), passwd_node (account ''b'' 51), passwd_node (account ''u'' 1000)], 1)"
    by code_simp
  have acc: "process_changed_accounts [passwd_node www_live, passwd_node (account ''u'' 1000)]
        [passwd_node www_master, passwd_node (account ''u'' 5)] 0
       = Inr ([passwd_node www_synced, passwd_node (account ''u'' 1000)], 2)"
    by code_simp
  have grps: "process_changed_groups [group_node (grp ''staff'' 50), group_node (grp ''users'' 1000)]
        [group_node (grp ''staff'' 51), group_node (grp ''users'' 100)] 0
       = Inr ([(group_node (grp ''staff'' 51)), group_node (grp ''users'' 1000)], 1)"
    by code_simp
  have new: "99 < node_id (passwd_node (account ''bob'' 1000))"
    "find_by_named_entry [passwd_node (account ''root'' 0)] (passwd_node (account ''bob'' 1000)) = None"
    "copy_node (passwd_node (account ''bob'' 1000)) = Inr (passwd_node (account ''bob'' 1000))"
    by code_simp+
  note a = reconcile_outside_reserved_range
    [of "passwd_node (account ''root'' 0) # stale_store" "[passwd_node (account ''root'' 0)]" 0
        "[passwd_node (account ''root'' 0), passwd_node (account ''b'' 51), passwd_node (account ''u'' 1000)]" 1]
  note b = reconcile_outside_reserved_range
    [of "[passwd_node www_live, passwd_node (account ''u'' 1000)]"
        "[passwd_node www_master, passwd_node (account ''u'' 5)]" 0
        "[passwd_node www_synced, passwd_node (account ''u'' 1000)]" 2]
  note c = reconcile_outside_reserved_range
    [of "[group_node (grp ''staff'' 50), group_node (grp ''users'' 1000)]"
        "[group_node (grp ''staff'' 51), group_node (grp ''users'' 100)]" 0
        "[(group_node (grp ''staff'' 51)), group_node (grp ''users'' 1000)]" 1]
  note d = reconcile_outside_reserved_range
    [where m = "passwd_node (account ''bob'' 1000)" and live = "[passwd_node (account ''root'' 0)]"
        and c = "passwd_node (account ''bob'' 1000)" and d = 7]
  from a old have 1: "filter (\<lambda>n. 99 < node_id n) [passwd_node (account ''root'' 0), passwd_node (account ''b'' 51), passwd_node (account ''u'' 1000)]
       = filter (\<lambda>n. 99 < node_id n) (passwd_node (account ''root'' 0) # stale_store)"
    by blast
  have out_a: "99 < node_id ([passwd_node www_live, passwd_node (account ''u'' 1000)] ! 1)"
    by code_simp
  from b acc have "\<forall>i < length [passwd_node www_live, passwd_node (account ''u'' 1000)].
         99 < node_id ([passwd_node www_live, passwd_node (account ''u'' 1000)] ! i) \<longrightarrow>
         [passwd_node www_synced, passwd_node (account ''u'' 1000)] ! i
           = [passwd_node www_live, passwd_node (account ''u'' 1000)] ! i"
    by blast
  with out_a have 2: "[passwd_node www_synced, passwd_node (account ''u'' 1000)] ! 1
       = [passwd_node www_live, passwd_node (account ''u'' 1000)] ! 1"
    by simp
  have out_g: "99 < node_id ([group_node (grp ''staff'' 50), group_node (grp ''users'' 1000)] ! 1)"
    by code_simp
  from c grps have "\<forall>i < length [group_node (grp ''staff'' 50), group_node (grp ''users'' 1000)].
         99 < node_id ([group_node (grp ''staff'' 50), group_node (grp ''users'' 1000)] ! i) \<longrightarrow>
         [(group_node (grp ''staff'' 51)), group_node (grp ''users'' 1000)] ! i
           = [group_node (grp ''staff'' 50), group_node (grp ''users'' 1000)] ! i"
    by blast
  with out_g have 3: "[(group_node (grp ''staff'' 51)), group_node (grp ''users'' 1000)] ! 1
       = [group_node (grp ''staff'' 50), group_node (grp ''users'' 1000)] ! 1"
    by simp
  from d new have 4: "process_new_entries [passwd_node (account ''root'' 0)] [passwd_node (account ''bob'' 1000)] 7
       = Inr (add_node [passwd_node (account ''root'' 0)] (passwd_node (account ''bob'' 1000)), 7 + 1)"
    by blast
  from old acc grps new out_a out_g 1 2 3 4 show ?thesis by (intro conjI)
qed

section \<open>Field synchronisation of accounts\<close>




text \<open>
  The lists on which \<^verbatim>\<open>main\<close> calls \<^verbatim>\<open>process_changed_accounts\<close> satisfy
  \<open>uid_is_id\<close>: the reader establishes it, and adding copies and removing nodes keep it.
\<close>

lemma set_add_node_subset: "set (add_node xs n) \<subseteq> insert n (set xs)"
  by (cases xs) (auto simp: set_add_node_walk)

lemma read_loop_uid_is_id:
  "list_all uid_is_id l \<Longrightarrow> list_all uid_is_id (read_loop passwd_node l es)"
proof (induction es arbitrary: l)
  case Nil
  then show ?case by simp
next
  case (Cons e es)
  have "list_all uid_is_id (add_node l (passwd_node e))"
    using Cons.prems set_add_node_subset [of l "passwd_node e"] uid_is_id_passwd_node [of e]
    by (auto simp: list_all_iff)
  from Cons.IH [OF this] show ?case by simp
qed

lemma read_passwd_uid_is_id: "list_all uid_is_id (snd (read_passwd [] src))"
  using read_loop_uid_is_id [of "[]"]
  by (simp add: read_passwd_def read_file_def Let_def split: source.splits)

lemma process_new_entries_uid_is_id:
  "process_new_entries live master d = Inr (live', d') \<Longrightarrow>
   list_all uid_is_id live \<Longrightarrow> list_all uid_is_id master \<Longrightarrow> list_all uid_is_id live'"
proof (induction master arbitrary: live d)
  case Nil
  then show ?case by simp
next
  case (Cons m ms)
  from Cons.prems(3) have m: "uid_is_id m" and ms: "list_all uid_is_id ms" by simp_all
  show ?case
  proof (cases "find_by_named_entry live m")
    case None
    with Cons.prems(1) obtain c where c: "copy_node m = Inr c"
      and run: "process_new_entries (add_node live c) ms (d + 1) = Inr (live', d')"
      by (auto simp: then_res_Inr)
    have "list_all uid_is_id (add_node live c)"
      using Cons.prems(2) set_add_node_subset [of live c] uid_is_id_copy_node [OF c m]
      by (auto simp: list_all_iff)
    from Cons.IH [OF run this ms] show ?thesis .
  next
    case (Some x)
    with Cons.prems(1) have "process_new_entries live ms d = Inr (live', d')" by simp
    from Cons.IH [OF this Cons.prems(2) ms] show ?thesis .
  qed
qed

lemma process_old_entries_subset:
  "process_old_entries live master d = Inr (live', d') \<Longrightarrow> set live' \<subseteq> set live"
proof (induction live arbitrary: live' d d' rule: length_induct)
  case (1 live)
  have ih: "set l \<subseteq> set ys"
    if "length ys < length live" "process_old_entries ys master a = Inr (l, b)" for ys l a b
    using "1.IH" that by blast
  show ?case
  proof (cases live)
    case Nil
    with "1.prems" show ?thesis by simp
  next
    case (Cons n rest)
    show ?thesis
    proof (cases "removable master n")
      case False
      from "1.prems" obtain l where
        r: "process_old_entries rest master d = Inr (l, d')" and l: "live' = n # l"
        unfolding Cons process_old_entries_keep [OF False] then_res_Inr by auto
      from Cons have "length rest < length live" by simp
      from ih [OF this r] l Cons show ?thesis by auto
    next
      case True
      show ?thesis
      proof (cases rest)
        case Nil
        with "1.prems" Cons process_old_entries_remove_last [OF True] show ?thesis by simp
      next
        case (Cons r rest')
        from "1.prems" obtain l where
          run: "process_old_entries rest' master (d + 1) = Inr (l, d')" and l: "live' = r # l"
          unfolding \<open>live = n # rest\<close> Cons process_old_entries_remove [OF True] then_res_Inr
          by auto
        from Cons \<open>live = n # rest\<close> have "length rest' < length live" by simp
        from ih [OF this run] l Cons \<open>live = n # rest\<close> show ?thesis by auto
      qed
    qed
  qed
qed

lemma main_accounts_uid_is_id:
  assumes load: "main_load inp = Some p"
    and new: "process_new_entries (system_accounts p) (master_accounts p) (flag_dirty p) = Inr (a1, d1)"
    and old: "process_old_entries a1 (master_accounts p) d1 = Inr (a2, d2)"
  shows "list_all uid_is_id a2 \<and> list_all uid_is_id (master_accounts p)"
proof -
  from load have m: "master_accounts p = snd (read_passwd [] (in_master_passwd inp))"
    and s: "system_accounts p = snd (read_passwd [] (in_sys_passwd inp))"
    by (auto simp: main_load_def Let_def split_def split: if_splits)
  have mi: "list_all uid_is_id (master_accounts p)" and si: "list_all uid_is_id (system_accounts p)"
    unfolding m s by (rule read_passwd_uid_is_id)+
  from process_new_entries_uid_is_id [OF new si mi] have "list_all uid_is_id a1" .
  with process_old_entries_subset [OF old] have "list_all uid_is_id a2"
    by (auto simp: list_all_iff)
  with mi show ?thesis by simp
qed



section \<open>Publishing a staged file\<close>








section \<open>Staging failures\<close>

lemma write_list_other:
  "write_list tag env fs list fname = Inr (r, fs') \<Longrightarrow> q \<noteq> fname \<Longrightarrow> fs' q = fs q"
  by (auto simp: write_list_def then_res_Inr Let_def split: if_splits)

lemma snprintf_path_longer:
  assumes "length a < PATH_MAX - 1" and "b \<noteq> []"
  shows "snprintf_path a b \<noteq> a"
proof
  assume "snprintf_path a b = a"
  then have "length (take (PATH_MAX - 1) (a @ b)) = length a"
    by (simp add: snprintf_path_def)
  moreover have "0 < length b" using assms(2) by simp
  ultimately show False using assms(1) by (simp add: min_def split: if_splits)
qed

lemma WRITE_EXTENSION_nonempty: "WRITE_EXTENSION \<noteq> []"
  by (simp add: WRITE_EXTENSION_def)

text \<open>
  How \<^verbatim>\<open>commit_files\<close> runs on from one list to the next: \<open>commit_shadow\<close> and
  \<open>commit_group\<close> are reached after the lists before them are published.
\<close>

lemma commit_files_continues:
  assumes "flag_dirty p \<noteq> 0" and "\<not> opt_dryrun opt"
    and "write_passwd (c_write_passwd env) fs (system_accounts p)
           (snprintf_path (sys_passwd opt) WRITE_EXTENSION) = Inr (True, fsa)"
    and "put_file_in_place (c_put_passwd env) fsa
           (snprintf_path (sys_passwd opt) WRITE_EXTENSION) (sys_passwd opt) = (True, fsb, steps)"
  shows "commit_files opt env p fs = commit_shadow opt env p fsb"
  using assms by (simp add: commit_files_def then_res_def Let_def)

lemma commit_shadow_continues:
  assumes "system_shadow p \<noteq> []"
    and "write_shadow (c_write_shadow env) fs (system_shadow p)
           (snprintf_path (sys_shadow opt) WRITE_EXTENSION) = Inr (True, fsa)"
    and "put_file_in_place (c_put_shadow env) fsa
           (snprintf_path (sys_shadow opt) WRITE_EXTENSION) (sys_shadow opt) = (True, fsb, steps)"
  shows "commit_shadow opt env p fs = commit_group opt env p fsb"
  using assms by (simp add: commit_shadow_def then_res_def Let_def)

lemma commit_shadow_skips:
  "system_shadow p = [] \<Longrightarrow> commit_shadow opt env p fs = commit_group opt env p fs"
  by (simp add: commit_shadow_def)

lemma stage_write_passwd:
  "write_passwd (c_write_passwd stage_fail_env) passwd_fs (system_accounts dirty_prog)
     (snprintf_path (sys_passwd default_opts) WRITE_EXTENSION)
   = Inr (False, passwd_fs(''/etc/passwd.upwd-write'' \<mapsto> partial_file))"
  by (simp add: write_passwd_def write_list_def stage_fail_env_def write_ok_def dirty_prog_def
      default_opts_def snprintf_path_def WRITE_EXTENSION_def PATH_MAX_def passwd_fs_def
      then_res_def is_passwd_def passwd_node_def partial_file_def)

lemma put_entries_result:
  "list_all (\<lambda>n. tag (node_d n)) l \<Longrightarrow>
   put_entries tag lim l =
     Inr ((case lim of None \<Rightarrow> True | Some k \<Rightarrow> length l \<le> k),
          map node_d (take (case lim of None \<Rightarrow> length l | Some k \<Rightarrow> min k (length l)) l))"
proof (induction l arbitrary: lim)
  case Nil
  then show ?case by (simp split: option.splits)
next
  case (Cons n rest)
  then have t: "tag (node_d n)" and r: "list_all (\<lambda>n. tag (node_d n)) rest" by simp_all
  show ?case
  proof (cases lim)
    case None
    with t Cons.IH [OF r, of None] show ?thesis by (simp add: then_res_def)
  next
    case (Some k)
    show ?thesis
    proof (cases k)
      case 0
      with Some t show ?thesis by simp
    next
      case (Suc j)
      with Some t Cons.IH [OF r, of "Some j"] show ?thesis by (simp add: then_res_def)
    qed
  qed
qed

lemma write_list_result:
  assumes "list_all (\<lambda>n. tag (node_d n)) l"
  shows "write_list tag e fs l fname = Inr (\<not> stage_fails e l, left_by_writer e fs l fname)"
proof -
  note pe = put_entries_result [OF assms, of "w_put_limit e"]
  show ?thesis
    unfolding write_list_def pe
    by (auto simp: then_res_def Let_def stage_fails_def left_by_writer_def staged_file_def
        writes_done_def not_le split: option.splits)
qed

lemma left_by_writer_props:
  assumes "length a < PATH_MAX - 1"
  shows "left_by_writer e fs l (snprintf_path a WRITE_EXTENSION) a = fs a
    \<and> (\<forall>q. q \<noteq> snprintf_path a WRITE_EXTENSION \<longrightarrow>
          left_by_writer e fs l (snprintf_path a WRITE_EXTENSION) q = fs q)
    \<and> (w_fopen_ok e \<longrightarrow>
          (\<exists>f. left_by_writer e fs l (snprintf_path a WRITE_EXTENSION)
                  (snprintf_path a WRITE_EXTENSION) = Some f
               \<and> f_content f = map node_d (take (writes_done e l) l)))
    \<and> (\<not> w_fopen_ok e \<longrightarrow> left_by_writer e fs l (snprintf_path a WRITE_EXTENSION) = fs)"
  using snprintf_path_longer [OF assms WRITE_EXTENSION_nonempty]
  by (auto simp: left_by_writer_def staged_file_def split: option.splits)

text \<open>
  Claim C6 as stated fails: when the second write to the staging file of the passwd
  list fails, \<^verbatim>\<open>commit_files\<close> returns 0 and the staging file stays, with the one
  entry written.
\<close>

theorem stage_failure_leaves_partial_file:
  "result_of (commit_files default_opts stage_fail_env dirty_prog passwd_fs) = Some False
   \<and> file_at (commit_files default_opts stage_fail_env dirty_prog passwd_fs)
        ''/etc/passwd.upwd-write'' = Some partial_file
   \<and> file_at (commit_files default_opts stage_fail_env dirty_prog passwd_fs)
        ''/etc/passwd'' = Some old_file"
proof -
  have "commit_files default_opts stage_fail_env dirty_prog passwd_fs
      = Inr (False, passwd_fs(''/etc/passwd.upwd-write'' \<mapsto> partial_file))"
    using stage_write_passwd
    by (simp add: commit_files_def then_res_def dirty_prog_def default_opts_def)
  then show ?thesis
    by (simp add: result_of_def file_at_def passwd_fs_def)
qed

text \<open>
  Claim C6, amended: when staging a list fails (the open, a write or the close),
  \<^verbatim>\<open>commit_files\<close> returns 0 with the file system as the writer left it: the
  destination and every path but the staging name are untouched, so no further list
  is staged or published; the staging file is not removed: if the open succeeded it is
  there and holds the entries written before the failure, and if the open failed
  nothing changed. Stated for the passwd list from the start of \<^verbatim>\<open>commit_files\<close>, and
  for the shadow and group lists from their blocks on; the nodes of each list carry
  the tag its writer asserts, and the paths are short enough for the staging name to
  differ from the destination.
\<close>

theorem stage_failure_aborts_commit:
  assumes dirty: "flag_dirty p \<noteq> 0" and wet: "\<not> opt_dryrun opt"
    and len: "length (sys_passwd opt) < PATH_MAX - 1" "length (sys_shadow opt) < PATH_MAX - 1"
      "length (sys_group opt) < PATH_MAX - 1"
    and tags: "list_all (\<lambda>n. is_passwd (node_d n)) (system_accounts p)"
      "list_all (\<lambda>n. is_shadow (node_d n)) (system_shadow p)"
      "list_all (\<lambda>n. is_group (node_d n)) (system_groups p)"
  shows "(stage_fails (c_write_passwd env) (system_accounts p) \<longrightarrow>
          commit_files opt env p fs
            = Inr (False, left_by_writer (c_write_passwd env) fs (system_accounts p)
                            (snprintf_path (sys_passwd opt) WRITE_EXTENSION))
          \<and> stage_left (c_write_passwd env) fs (system_accounts p) (sys_passwd opt))
    \<and> (system_shadow p \<noteq> [] \<and> stage_fails (c_write_shadow env) (system_shadow p) \<longrightarrow>
          commit_shadow opt env p fs
            = Inr (False, left_by_writer (c_write_shadow env) fs (system_shadow p)
                            (snprintf_path (sys_shadow opt) WRITE_EXTENSION))
          \<and> stage_left (c_write_shadow env) fs (system_shadow p) (sys_shadow opt))
    \<and> (stage_fails (c_write_group env) (system_groups p) \<longrightarrow>
          commit_group opt env p fs
            = Inr (False, left_by_writer (c_write_group env) fs (system_groups p)
                            (snprintf_path (sys_group opt) WRITE_EXTENSION))
          \<and> stage_left (c_write_group env) fs (system_groups p) (sys_group opt))"
proof -
  have a: "commit_files opt env p fs
       = Inr (False, left_by_writer (c_write_passwd env) fs (system_accounts p)
                       (snprintf_path (sys_passwd opt) WRITE_EXTENSION))"
    if "stage_fails (c_write_passwd env) (system_accounts p)"
    using that dirty wet
    by (simp add: commit_files_def write_passwd_def write_list_result [OF tags(1)]
        then_res_def Let_def)
  have b: "commit_shadow opt env p fs
       = Inr (False, left_by_writer (c_write_shadow env) fs (system_shadow p)
                       (snprintf_path (sys_shadow opt) WRITE_EXTENSION))"
    if "system_shadow p \<noteq> []" "stage_fails (c_write_shadow env) (system_shadow p)"
    using that
    by (simp add: commit_shadow_def write_shadow_def write_list_result [OF tags(2)]
        then_res_def Let_def)
  have c: "commit_group opt env p fs
       = Inr (False, left_by_writer (c_write_group env) fs (system_groups p)
                       (snprintf_path (sys_group opt) WRITE_EXTENSION))"
    if "stage_fails (c_write_group env) (system_groups p)"
    using that
    by (simp add: commit_group_def write_group_def write_list_result [OF tags(3)]
        then_res_def Let_def)
  have pa: "stage_left (c_write_passwd env) fs (system_accounts p) (sys_passwd opt)"
    unfolding stage_left_def by (rule left_by_writer_props [OF len(1)])
  have pb: "stage_left (c_write_shadow env) fs (system_shadow p) (sys_shadow opt)"
    unfolding stage_left_def by (rule left_by_writer_props [OF len(2)])
  have pc: "stage_left (c_write_group env) fs (system_groups p) (sys_group opt)"
    unfolding stage_left_def by (rule left_by_writer_props [OF len(3)])
  from a b c pa pb pc show ?thesis by blast
qed

text \<open>Witness for C6: the three writers of the example run.\<close>

theorem stage_failure_aborts_commit_witness:
  "flag_dirty dirty_prog \<noteq> 0 \<and> \<not> opt_dryrun default_opts
   \<and> length (sys_passwd default_opts) < PATH_MAX - 1
   \<and> length (sys_shadow default_opts) < PATH_MAX - 1
   \<and> length (sys_group default_opts) < PATH_MAX - 1
   \<and> list_all (\<lambda>n. is_passwd (node_d n)) (system_accounts dirty_prog)
   \<and> list_all (\<lambda>n. is_shadow (node_d n)) (system_shadow dirty_prog)
   \<and> list_all (\<lambda>n. is_group (node_d n)) (system_groups dirty_prog)
   \<and> stage_fails (c_write_passwd stage_fail_env) (system_accounts dirty_prog)
   \<and> commit_files default_opts stage_fail_env dirty_prog passwd_fs
       = Inr (False, left_by_writer (c_write_passwd stage_fail_env) passwd_fs
                       (system_accounts dirty_prog)
                       (snprintf_path (sys_passwd default_opts) WRITE_EXTENSION))
   \<and> stage_left (c_write_passwd stage_fail_env) passwd_fs (system_accounts dirty_prog)
        (sys_passwd default_opts)
   \<and> left_by_writer (c_write_passwd stage_fail_env) passwd_fs (system_accounts dirty_prog)
        (snprintf_path (sys_passwd default_opts) WRITE_EXTENSION) ''/etc/passwd.upwd-write''
       = Some partial_file
   \<and> system_shadow dirty_prog \<noteq> []
   \<and> stage_fails (c_write_shadow stage_fail_env) (system_shadow dirty_prog)
   \<and> commit_shadow default_opts stage_fail_env dirty_prog passwd_fs
       = Inr (False, left_by_writer (c_write_shadow stage_fail_env) passwd_fs
                       (system_shadow dirty_prog)
                       (snprintf_path (sys_shadow default_opts) WRITE_EXTENSION))
   \<and> stage_left (c_write_shadow stage_fail_env) passwd_fs (system_shadow dirty_prog)
        (sys_shadow default_opts)
   \<and> stage_fails (c_write_group stage_fail_env) (system_groups dirty_prog)
   \<and> commit_group default_opts stage_fail_env dirty_prog passwd_fs
       = Inr (False, left_by_writer (c_write_group stage_fail_env) passwd_fs
                       (system_groups dirty_prog)
                       (snprintf_path (sys_group default_opts) WRITE_EXTENSION))
   \<and> stage_left (c_write_group stage_fail_env) passwd_fs (system_groups dirty_prog)
        (sys_group default_opts)"
proof -
  have h: "flag_dirty dirty_prog \<noteq> 0" "\<not> opt_dryrun default_opts"
    "length (sys_passwd default_opts) < PATH_MAX - 1"
    "length (sys_shadow default_opts) < PATH_MAX - 1"
    "length (sys_group default_opts) < PATH_MAX - 1"
    by (simp_all add: dirty_prog_def default_opts_def PATH_MAX_def)
  have t: "list_all (\<lambda>n. is_passwd (node_d n)) (system_accounts dirty_prog)"
    "list_all (\<lambda>n. is_shadow (node_d n)) (system_shadow dirty_prog)"
    "list_all (\<lambda>n. is_group (node_d n)) (system_groups dirty_prog)"
    by (simp_all add: dirty_prog_def is_passwd_def is_shadow_def is_group_def
        passwd_node_def shadow_node_def group_node_def)
  have f: "stage_fails (c_write_passwd stage_fail_env) (system_accounts dirty_prog)"
    "system_shadow dirty_prog \<noteq> []"
    "stage_fails (c_write_shadow stage_fail_env) (system_shadow dirty_prog)"
    "stage_fails (c_write_group stage_fail_env) (system_groups dirty_prog)"
    by (simp_all add: stage_fails_def stage_fail_env_def write_ok_def dirty_prog_def)
  have part: "left_by_writer (c_write_passwd stage_fail_env) passwd_fs
        (system_accounts dirty_prog)
        (snprintf_path (sys_passwd default_opts) WRITE_EXTENSION) ''/etc/passwd.upwd-write''
       = Some partial_file"
    by (simp add: left_by_writer_def staged_file_def writes_done_def stage_fail_env_def
        write_ok_def dirty_prog_def default_opts_def snprintf_path_def WRITE_EXTENSION_def
        PATH_MAX_def passwd_fs_def passwd_node_def partial_file_def)
  from stage_failure_aborts_commit [OF h t, of stage_fail_env passwd_fs] h t f part
  show ?thesis by (intro conjI) blast+
qed

section \<open>Idempotence\<close>

text \<open>
  Claim C7: a second pass on the result of the first, with the counter reset, leaves
  the counter at zero. The code departs from it: on \<open>churn_prog\<close> the first pass
  removes \<open>a\<close> and steps over \<open>b\<close>, and the second pass removes \<open>b\<close> and ends with
  the counter at 1.
\<close>

theorem second_pass_dirty:
  "main_reconcile churn_prog
     = Inr (churn_prog\<lparr>system_accounts :=
              [passwd_node (account ''root'' 0), passwd_node (account ''b'' 51),
               passwd_node (account ''u'' 1000)],
              flag_dirty := 1\<rparr>)
   \<and> main_reconcile (churn_prog\<lparr>system_accounts :=
              [passwd_node (account ''root'' 0), passwd_node (account ''b'' 51),
               passwd_node (account ''u'' 1000)],
              flag_dirty := 0\<rparr>)
     = Inr (churn_prog\<lparr>system_accounts :=
              [passwd_node (account ''root'' 0), passwd_node (account ''u'' 1000)],
              flag_dirty := 1\<rparr>)"
  by code_simp

section \<open>The sanity flag\<close>

text \<open>
  Claim C8 as stated fails: with \<^verbatim>\<open>opt_sanity\<close> set the pass has run before the flag
  is tested; the account \<open>svc\<close> is in the live list and the counter is 1.
\<close>

theorem sanity_flag_reconciles_in_memory:
  "main (default_opts\<lparr>opt_sanity := True\<rparr>) stage_fail_env svc_inputs passwd_fs
     = Inr \<lparr>out_status = 0,
            out_prog = svc_loaded\<lparr>system_accounts :=
               [passwd_node (account ''root'' 0), passwd_node (account ''svc'' 50)], flag_dirty := 1\<rparr>,
            out_files = passwd_fs, out_locks = []\<rparr>
   \<and> main_load svc_inputs = Some svc_loaded
   \<and> system_accounts svc_loaded = [passwd_node (account ''root'' 0)]"
proof -
  have l: "main_load svc_inputs = Some svc_loaded" by code_simp
  have r: "main_reconcile svc_loaded = Inr (svc_loaded\<lparr>system_accounts :=
               [passwd_node (account ''root'' 0), passwd_node (account ''svc'' 50)], flag_dirty := 1\<rparr>)"
    by code_simp
  have s: "system_accounts svc_loaded = [passwd_node (account ''root'' 0)]"
    by (simp add: svc_loaded_def)
  show ?thesis
    using l r s by (simp add: main_def main_finish_def then_res_def default_opts_def)
qed

text \<open>
  Claim C8, amended: with \<^verbatim>\<open>opt_sanity\<close> set, after a load and a pass that succeed,
  \<^verbatim>\<open>main\<close> returns 0 with the reconciled lists in memory, without a call of the lock
  primitives and with the file system as it was; nothing about the order of the
  entries is tested.
\<close>

theorem sanity_flag_after_reconcile:
  assumes "opt_sanity opt" and "main_load inp = Some p" and "main_reconcile p = Inr p'"
  shows "main opt env inp fs =
     Inr \<lparr>out_status = 0, out_prog = p', out_files = fs, out_locks = []\<rparr>"
  using assms by (simp add: main_def main_finish_def then_res_def)

text \<open>Witness for C8: the run of the example input.\<close>

theorem sanity_flag_after_reconcile_witness:
  "opt_sanity (default_opts\<lparr>opt_sanity := True\<rparr>)
   \<and> main_load svc_inputs = Some svc_loaded
   \<and> main_reconcile svc_loaded = Inr (svc_loaded\<lparr>system_accounts :=
               [passwd_node (account ''root'' 0), passwd_node (account ''svc'' 50)], flag_dirty := 1\<rparr>)
   \<and> main (default_opts\<lparr>opt_sanity := True\<rparr>) stage_fail_env svc_inputs passwd_fs
     = Inr \<lparr>out_status = 0,
            out_prog = svc_loaded\<lparr>system_accounts :=
               [passwd_node (account ''root'' 0), passwd_node (account ''svc'' 50)], flag_dirty := 1\<rparr>,
            out_files = passwd_fs, out_locks = []\<rparr>"
proof -
  have o: "opt_sanity (default_opts\<lparr>opt_sanity := True\<rparr>)" by simp
  have l: "main_load svc_inputs = Some svc_loaded" by code_simp
  have r: "main_reconcile svc_loaded = Inr (svc_loaded\<lparr>system_accounts :=
               [passwd_node (account ''root'' 0), passwd_node (account ''svc'' 50)], flag_dirty := 1\<rparr>)"
    by code_simp
  from sanity_flag_after_reconcile [OF o l r, of stage_fail_env passwd_fs] o l r
  show ?thesis by (intro conjI)
qed

section \<open>The auto-add flag\<close>







section \<open>Wildcard entries\<close>

text \<open>
  Claim C10: a record whose name begins with \<^verbatim>\<open>+\<close> gets \<open>INT_MAX\<close> as \<open>id\<close> when it is
  read and is then never removed by the pass. The code departs from it: the reader
  gives the \<^verbatim>\<open>+\<close> line of the example \<open>INT_MAX\<close>, but the pass, adding \<open>root\<close> (0) to a
  list whose head has \<open>id\<close> 1, leaves \<open>root\<close> alone in the list.
\<close>

theorem plus_entry_dropped_by_add:
  "main_load plus_inputs = Some plus_loaded
   \<and> node_id (passwd_node plus_line) = INT_MAX
   \<and> passwd_node plus_line \<in> set (system_accounts plus_loaded)
   \<and> main_reconcile plus_loaded
       = Inr (plus_loaded\<lparr>system_accounts := [passwd_node (account ''root'' 0)], flag_dirty := 1\<rparr>)"
  by code_simp

end
